theory Spec2Isabelle
  imports Complex_Main "HOL-Library.Monad_Syntax"
begin

section \<open>Characters and the string methods the program calls\<close>

text \<open>
  A Python \<open>str\<close> is modelled as a \<open>string\<close>. The character tables below are the ASCII
  ones: a character outside ASCII is neither a letter, a digit nor white space and has no
  case. Text from outside ASCII enters the program through \<open>normalize_text\<close>, whose first
  step folds it to ASCII; what that step makes of a character outside ASCII is left open
  (see \<open>ascii_fold\<close>), and no proof below depends on how many such characters there are.
\<close>

definition upper_letters :: string where
  "upper_letters = ''ABCDEFGHIJKLMNOPQRSTUVWXYZ''"

definition lower_letters :: string where
  "lower_letters = ''abcdefghijklmnopqrstuvwxyz''"

definition digit_chars :: string where
  "digit_chars = ''0123456789''"

definition is_upper_c :: "char \<Rightarrow> bool" where
  "is_upper_c c = (c \<in> set upper_letters)"

definition is_lower_c :: "char \<Rightarrow> bool" where
  "is_lower_c c = (c \<in> set lower_letters)"

definition is_alpha_c :: "char \<Rightarrow> bool" where
  "is_alpha_c c = (is_upper_c c \<or> is_lower_c c)"

definition is_digit_c :: "char \<Rightarrow> bool" where
  "is_digit_c c = (c \<in> set digit_chars)"

definition is_alnum_c :: "char \<Rightarrow> bool" where
  "is_alnum_c c = (is_alpha_c c \<or> is_digit_c c)"

text \<open>\<open>\w\<close> of the \<open>re\<close> module: a letter, a digit or the underscore.\<close>

definition is_word_c :: "char \<Rightarrow> bool" where
  "is_word_c c = (is_alnum_c c \<or> c = CHR ''_'')"

text \<open>
  White space as \<open>str.isspace\<close>, \<open>str.split\<close>, \<open>str.strip\<close> and \<open>\s\<close> see it in ASCII:
  tab, line feed, vertical tab, form feed, carriage return, the four separators
  \<open>0x1C\<close> to \<open>0x1F\<close>, and the space.
\<close>

definition is_space_c :: "char \<Rightarrow> bool" where
  "is_space_c c = (c \<in> set [CHR '' '', CHR 0x09, CHR 0x0A, CHR 0x0B, CHR 0x0C, CHR 0x0D,
                              CHR 0x1C, CHR 0x1D, CHR 0x1E, CHR 0x1F])"

definition is_ascii_c :: "char \<Rightarrow> bool" where
  "is_ascii_c c = (\<not> digit7 c)"

definition upper_c :: "char \<Rightarrow> char" where
  "upper_c c = (case map_of (zip lower_letters upper_letters) c of Some u \<Rightarrow> u | None \<Rightarrow> c)"

definition lower_c :: "char \<Rightarrow> char" where
  "lower_c c = (case map_of (zip upper_letters lower_letters) c of Some l \<Rightarrow> l | None \<Rightarrow> c)"

definition py_upper :: "string \<Rightarrow> string" where
  "py_upper s = map upper_c s"

definition py_lower :: "string \<Rightarrow> string" where
  "py_lower s = map lower_c s"

text \<open>\<open>s.strip()\<close> and \<open>s.strip(chars)\<close>.\<close>

definition strip_with :: "(char \<Rightarrow> bool) \<Rightarrow> string \<Rightarrow> string" where
  "strip_with p s = rev (dropWhile p (rev (dropWhile p s)))"

definition py_strip :: "string \<Rightarrow> string" where
  "py_strip s = strip_with is_space_c s"

text \<open>\<open>s.split()\<close>: the maximal runs of characters that are not white space.\<close>

fun split_ws :: "string \<Rightarrow> string \<Rightarrow> string list" where
  "split_ws w [] = (if w = [] then [] else [rev w])"
| "split_ws w (c # cs) =
     (if is_space_c c then (if w = [] then split_ws [] cs else rev w # split_ws [] cs)
      else split_ws (c # w) cs)"

definition py_split :: "string \<Rightarrow> string list" where
  "py_split s = split_ws [] s"

text \<open>\<open>s.split(sep)\<close> for a separator of one character: empty pieces are kept.\<close>

fun split_on :: "char \<Rightarrow> string \<Rightarrow> string \<Rightarrow> string list" where
  "split_on sep w [] = [rev w]"
| "split_on sep w (c # cs) =
     (if c = sep then rev w # split_on sep [] cs else split_on sep (c # w) cs)"

definition py_join :: "string \<Rightarrow> string list \<Rightarrow> string" where
  "py_join sep ws = (case ws of [] \<Rightarrow> [] | w # rest \<Rightarrow> w @ concat (map (\<lambda>x. sep @ x) rest))"

definition startswith :: "string \<Rightarrow> string \<Rightarrow> bool" where
  "startswith s p = (take (length p) s = p)"

text \<open>\<open>s.find(w)\<close>: the index of the first occurrence, \<open>None\<close> for Python's \<open>-1\<close>.\<close>

fun py_find :: "string \<Rightarrow> string \<Rightarrow> nat option" where
  "py_find [] w = (if w = [] then Some 0 else None)"
| "py_find (c # cs) w =
     (if startswith (c # cs) w then Some 0 else map_option Suc (py_find cs w))"

text \<open>\<open>w in s\<close> on strings.\<close>

definition contains :: "string \<Rightarrow> string \<Rightarrow> bool" where
  "contains s w = (py_find s w \<noteq> None)"

text \<open>\<open>any(k in s for k in ks)\<close>.\<close>

definition contains_any :: "string \<Rightarrow> string list \<Rightarrow> bool" where
  "contains_any s ks = list_ex (contains s) ks"

definition py_replace_c :: "char \<Rightarrow> char \<Rightarrow> string \<Rightarrow> string" where
  "py_replace_c a b s = map (\<lambda>c. if c = a then b else c) s"

text \<open>\<open>s.isalpha()\<close>, \<open>s.isupper()\<close> and \<open>s.capitalize()\<close>.\<close>

definition py_isalpha :: "string \<Rightarrow> bool" where
  "py_isalpha s = (s \<noteq> [] \<and> list_all is_alpha_c s)"

definition py_isupper :: "string \<Rightarrow> bool" where
  "py_isupper s = (list_ex is_upper_c s \<and> \<not> list_ex is_lower_c s)"

definition py_capitalize :: "string \<Rightarrow> string" where
  "py_capitalize s = (case s of [] \<Rightarrow> [] | c # cs \<Rightarrow> upper_c c # map lower_c cs)"

section \<open>Regular expressions as the \<open>re\<close> module runs them\<close>

text \<open>
  The patterns of the program use literals, character classes, concatenation,
  alternation, greedy repetition, \<open>^\<close>, \<open>$\<close> and \<open>\b\<close>. A pattern is a term of
  \<open>rx\<close>; the matcher is the backtracking one of \<open>re\<close>: alternatives are tried left to
  right, a repetition takes one more round before it tries to stop, and the first way to
  reach the end of the pattern is the match.
\<close>

datatype rx =
    Sym "char \<Rightarrow> bool"
  | Eps
  | Seq rx rx
  | Alt rx rx
  | Rep nat "nat option" rx
  | Bol
  | Eol
  | Wb

text \<open>A cursor is the character before the position (none at the start) and the text after it.\<close>

type_synonym cursor = "char option \<times> string"

definition word_before :: "cursor \<Rightarrow> bool" where
  "word_before cur = (case fst cur of None \<Rightarrow> False | Some c \<Rightarrow> is_word_c c)"

definition word_after :: "cursor \<Rightarrow> bool" where
  "word_after cur = (case snd cur of [] \<Rightarrow> False | c # _ \<Rightarrow> is_word_c c)"

text \<open>
  The matcher is written with a continuation \<open>k\<close>, which receives the cursor where the
  part matched so far ends and answers with the result of the rest of the pattern;
  \<open>None\<close> sends the matcher back to its last open choice.

  \<open>rep_m body lo hi fuel k cur\<close> runs the greedy repetition \<open>{lo,hi}\<close> of \<open>body\<close>. The
  fuel is the text after the cursor at the start of the repetition: every repeated body of
  the program's patterns consumes at least one character, so the text bounds the number of
  rounds.
\<close>

primrec rep_m :: "((cursor \<Rightarrow> 'a option) \<Rightarrow> cursor \<Rightarrow> 'a option) \<Rightarrow> nat \<Rightarrow> nat option
    \<Rightarrow> string \<Rightarrow> (cursor \<Rightarrow> 'a option) \<Rightarrow> cursor \<Rightarrow> 'a option" where
  "rep_m body lo hi [] k cur = (if lo = 0 then k cur else None)"
| "rep_m body lo hi (f # fuel) k cur =
     (case (if hi = Some 0 then None
            else body (rep_m body (lo - 1) (map_option (\<lambda>h. h - 1) hi) fuel k) cur) of
        Some r \<Rightarrow> Some r
      | None \<Rightarrow> (if lo = 0 then k cur else None))"

primrec rx_m :: "rx \<Rightarrow> (cursor \<Rightarrow> 'a option) \<Rightarrow> cursor \<Rightarrow> 'a option" where
  "rx_m (Sym p) k cur =
     (case snd cur of [] \<Rightarrow> None | c # cs \<Rightarrow> if p c then k (Some c, cs) else None)"
| "rx_m Eps k cur = k cur"
| "rx_m (Seq a b) k cur = rx_m a (rx_m b k) cur"
| "rx_m (Alt a b) k cur = (case rx_m a k cur of Some r \<Rightarrow> Some r | None \<Rightarrow> rx_m b k cur)"
| "rx_m (Rep lo hi a) k cur = rep_m (rx_m a) lo hi (snd cur) k cur"
| "rx_m Bol k cur = (if fst cur = None then k cur else None)"
| "rx_m Eol k cur = (if snd cur = [] \<or> snd cur = [CHR 0x0A] then k cur else None)"
| "rx_m Wb k cur = (if word_before cur \<noteq> word_after cur then k cur else None)"

text \<open>The match that starts at the cursor, given by the cursor where it ends.\<close>

definition match_here :: "rx \<Rightarrow> cursor \<Rightarrow> cursor option" where
  "match_here r cur = rx_m r Some cur"

text \<open>\<open>re.search\<close>: the leftmost match, as its start index and the cursor at its end.\<close>

fun find_from :: "rx \<Rightarrow> char option \<Rightarrow> string \<Rightarrow> (nat \<times> cursor) option" where
  "find_from r prev [] = map_option (Pair 0) (match_here r (prev, []))"
| "find_from r prev (c # cs) =
     (case match_here r (prev, c # cs) of
        Some e \<Rightarrow> Some (0, e)
      | None \<Rightarrow> map_option (\<lambda>(i, e). (Suc i, e)) (find_from r (Some c) cs))"

definition re_search :: "rx \<Rightarrow> string \<Rightarrow> (nat \<times> cursor) option" where
  "re_search r s = find_from r None s"

definition re_found :: "rx \<Rightarrow> string \<Rightarrow> bool" where
  "re_found r s = (re_search r s \<noteq> None)"

text \<open>\<open>re.match\<close> (as a truth value) and \<open>re.fullmatch\<close>.\<close>

definition re_match :: "rx \<Rightarrow> string \<Rightarrow> bool" where
  "re_match r s = (match_here r (None, s) \<noteq> None)"

definition at_end :: "cursor \<Rightarrow> cursor option" where
  "at_end cur = (if snd cur = [] then Some cur else None)"

definition re_fullmatch :: "rx \<Rightarrow> string \<Rightarrow> bool" where
  "re_fullmatch r s = (rx_m r at_end (None, s) \<noteq> None)"

text \<open>
  \<open>re.sub\<close> with a constant replacement: every match, left to right, is replaced; after
  a match the scan goes on where the match ended. A match that consumed nothing is
  replaced too and the scan steps over one character.
\<close>

function sub_from :: "rx \<Rightarrow> string \<Rightarrow> char option \<Rightarrow> string \<Rightarrow> string" where
  "sub_from r rep prev [] = (if match_here r (prev, []) = None then [] else rep)"
| "sub_from r rep prev (c # cs) =
     (case match_here r (prev, c # cs) of
        None \<Rightarrow> c # sub_from r rep (Some c) cs
      | Some e \<Rightarrow>
          if length (snd e) < Suc (length cs) then rep @ sub_from r rep (fst e) (snd e)
          else rep @ c # sub_from r rep (Some c) cs)"
  by pat_completeness auto
termination
  by (relation "measure (\<lambda>(r, rep, prev, s). length s)") auto

definition re_sub :: "rx \<Rightarrow> string \<Rightarrow> string \<Rightarrow> string" where
  "re_sub r rep s = sub_from r rep None s"

subsection \<open>Writing patterns\<close>

definition cat :: "rx list \<Rightarrow> rx" where
  "cat rs = foldr Seq rs Eps"

definition alts :: "rx list \<Rightarrow> rx" where
  "alts rs = (case rs of [] \<Rightarrow> Sym (\<lambda>c. False) | r # rest \<Rightarrow> foldl Alt r rest)"

definition chr :: "char \<Rightarrow> rx" where
  "chr c = Sym (\<lambda>x. x = c)"

definition lit :: "string \<Rightarrow> rx" where
  "lit s = cat (map chr s)"

definition one_of :: "string \<Rightarrow> rx" where
  "one_of cs = Sym (\<lambda>x. x \<in> set cs)"

definition star :: "rx \<Rightarrow> rx" where
  "star r = Rep 0 None r"

definition plus :: "rx \<Rightarrow> rx" where
  "plus r = Rep 1 None r"

definition opt :: "rx \<Rightarrow> rx" where
  "opt r = Rep 0 (Some 1) r"

definition ws :: rx where
  "ws = Sym is_space_c"

definition dot :: rx where
  "dot = Sym (\<lambda>x. x \<noteq> CHR 0x0A)"

text \<open>
  \<open>re.IGNORECASE\<close>, or \<open>(?i)\<close> in the pattern: a character matches when it or its other
  case does.
\<close>

primrec ci :: "rx \<Rightarrow> rx" where
  "ci (Sym p) = Sym (\<lambda>x. p x \<or> p (lower_c x) \<or> p (upper_c x))"
| "ci Eps = Eps"
| "ci (Seq a b) = Seq (ci a) (ci b)"
| "ci (Alt a b) = Alt (ci a) (ci b)"
| "ci (Rep lo hi a) = Rep lo hi (ci a)"
| "ci Bol = Bol"
| "ci Eol = Eol"
| "ci Wb = Wb"

section \<open>Text normalisation\<close>

text \<open>
  \<open>unicodedata.normalize("NFKD", text).encode("ascii", "ignore")\<close> decomposes every
  character and drops what is not ASCII. An ASCII character has no decomposition, and the
  canonical reordering of NFKD moves combining marks only, none of which is ASCII; so the
  result is, character by character, the ASCII part of each decomposition. The table of
  decompositions belongs to the Unicode database, not to the program: it is the parameter
  \<open>nfkd\<close>, consulted for the characters outside ASCII.
\<close>

definition ascii_fold :: "(char \<Rightarrow> string) \<Rightarrow> string \<Rightarrow> string" where
  "ascii_fold nfkd s = concat (map (\<lambda>c. if is_ascii_c c then [c] else filter is_ascii_c (nfkd c)) s)"

text \<open>The table that gives no character an ASCII part.\<close>

definition no_fold :: "char \<Rightarrow> string" where
  "no_fold c = []"

definition rx_spaces :: rx where
  "rx_spaces = plus ws"

definition collapse_ws :: "string \<Rightarrow> string" where
  "collapse_ws s = py_strip (re_sub rx_spaces '' '' s)"

text \<open>\<open>normalize_text\<close>, lines 91 to 96 of \<open>extraction_utils.py\<close>.\<close>

definition normalize_text :: "(char \<Rightarrow> string) \<Rightarrow> string \<Rightarrow> string" where
  "normalize_text nfkd text =
     (if text = [] then []
      else collapse_ws (py_replace_c (CHR 0x00) (CHR '' '') (ascii_fold nfkd text)))"

text \<open>
  \<open>_alpha_ratio\<close> divides two lengths and the program compares the quotient with a
  decimal constant. The quotient is kept exact here.
\<close>

definition alpha_ratio :: "string \<Rightarrow> rat" where
  "alpha_ratio s =
     (if s = [] then 0
      else of_nat (length (filter is_alpha_c s)) / of_nat (max (length s) 1))"

definition has_vowel :: "string \<Rightarrow> bool" where
  "has_vowel token = list_ex (\<lambda>ch. ch \<in> set ''AEIOU'') (py_upper token)"

section \<open>Canonical terms\<close>

definition rx_vd :: rx where
  "rx_vd = ci (cat [Wb, chr CHR ''V'', star ws, opt (one_of ''-./''), star ws, chr CHR ''D'',
                    star ws, opt (lit ''OF''), Wb])"

definition rx_vd_of :: rx where
  "rx_vd_of = ci (cat [Wb, chr CHR ''V'', star ws, chr CHR ''/'', star ws, chr CHR ''D'', Wb,
                       star ws, lit ''OF'', Wb])"

definition rx_prov :: rx where
  "rx_prov = ci (cat [Wb, lit ''PROV'', opt (chr CHR ''.''), Wb])"

definition rx_ref :: rx where
  "rx_ref = ci (cat [Wb, lit ''REF'', opt (lit ''ER''), opt (chr CHR ''.''), Wb])"

definition rx_aircon :: rx where
  "rx_aircon = ci (cat [Wb, lit ''AIR'', opt (Sym (\<lambda>c. c = CHR ''-'' \<or> is_space_c c)), lit ''CON'', Wb])"

text \<open>
  The class of the next pattern also holds the typographic apostrophe, which is not ASCII
  and cannot occur in the normalised text the pattern is applied to.
\<close>

definition rx_arrt_quote :: rx where
  "rx_arrt_quote = ci (cat [Wb, lit ''ARR'', opt (chr (CHR 0x27)), star ws, chr CHR ''T'', Wb])"

definition rx_arrt :: rx where
  "rx_arrt = ci (cat [Wb, lit ''ARR'', star ws, chr CHR ''T'', Wb])"

definition rx_arrangment :: rx where
  "rx_arrangment = ci (cat [Wb, lit ''ARRANGMENT'', Wb])"

definition rx_er_dash :: rx where
  "rx_er_dash = ci (cat [Wb, chr CHR ''E'', star ws, chr CHR ''-'', star ws, chr CHR ''R'', Wb])"

definition rx_er_space :: rx where
  "rx_er_space = ci (cat [Wb, chr CHR ''E'', plus ws, chr CHR ''R'', Wb])"

definition rx_er_slash :: rx where
  "rx_er_slash = ci (cat [Wb, chr CHR ''E'', star ws, chr CHR ''/'', star ws, chr CHR ''R'', Wb])"

definition rx_workshop :: rx where
  "rx_workshop = ci (cat [Wb, lit ''WORK'', plus ws, lit ''SHOP'', Wb])"

definition rx_amp :: rx where
  "rx_amp = cat [star ws, chr CHR ''&'', star ws]"

text \<open>
  \<open>_normalize_title_terms\<close>, lines 126 to 157; the thirteen patterns above are its
  substitutions, in its order. (A name cannot start with an underscore here, so the
  functions of the program are written without theirs.)
\<close>

definition normalize_title_terms :: "(char \<Rightarrow> string) \<Rightarrow> string \<Rightarrow> string" where
  "normalize_title_terms nfkd s0 =
     (if s0 = [] then []
      else
        (let s = normalize_text nfkd s0;
             s = re_sub rx_vd ''V/D of'' s;
             s = re_sub rx_vd_of ''V/D of'' s;
             s = re_sub rx_prov ''Provision'' s;
             s = re_sub rx_ref ''Refrigerating'' s;
             s = re_sub rx_aircon ''Air-Con'' s;
             s = re_sub rx_arrt_quote ''ARRANGEMENT'' s;
             s = re_sub rx_arrt ''ARRANGEMENT'' s;
             s = re_sub rx_arrangment ''ARRANGEMENT'' s;
             s = re_sub rx_er_dash ''E/R'' s;
             s = re_sub rx_er_space ''E/R'' s;
             s = re_sub rx_er_slash ''E/R'' s;
             s = re_sub rx_workshop ''WORKSHOP'' s;
             s = re_sub rx_amp '' AND '' s
         in collapse_ws s))"

section \<open>Stamp and revision boxes\<close>

definition SYSTEM_KEYWORDS :: "string list" where
  "SYSTEM_KEYWORDS =
    [''ARRANGEMENT'', ''ARR'T'', ''ARR T'', ''ARRANGMENT'',
     ''E/R'', ''E-R'', ''E R'',
     ''WORK SHOP'', ''WORKSHOP'', ''STORE'',
     ''SPARE PARTS'', ''TOOLS LIST'', ''SPARE PARTS AND TOOLS LIST'', ''SPARE PARTS & TOOLS LIST'',
     ''MAIN ENGINE'', ''AUX'', ''AUX. MACHINERY'', ''AUX MACHINERY'',
     ''VALVE LIST'', ''V/V LIST'',
     ''ICCP'', ''I.C.C.P.'',
     ''PAINTING SPECIFICATION'',
     ''DOCKING ANALYSIS'', ''DOCKING PLAN'',
     ''ACCOMMODATION'', ''DECK MACHINERY'',
     ''SIDE THRUSTER'', ''STERN THRUSTER'', ''BOW THRUSTER'',
     ''FIRE FIGHTING'', ''FIRE APPLIANCE'',
     ''AIR CONDITIONING PLANT'',
     ''PROVISION REFRIGERATING PLANT'',
     ''GALLEY AND LAUNDRY EQUIPMENT'',
     ''SEWAGE TREATMENT PLANT'',
     ''MACHINERY ARRANGEMENT'',
     ''EQUIPMENT LIST'',
     ''FLOWMETER'', ''FLOW METER'',
     ''PLATE TYPE COOLER'',
     ''CENTRIFUGAL PUMP'',
     ''M.G.P.S'', ''M. G. P. S'', ''MARINE GROWTH PREVENTION SYSTEM'',
     ''STEERING GEAR ROOM'', ''STEERING GEAR'', ''STEERI NG GEAR'',
     ''RUDDER'', ''SHAFT'', ''FOUNDATION'', ''FRAME'', ''STOCK'', ''CONSTRUCTION'', ''STERN'',
     ''HULL'', ''SHELL'', ''EXPANSION'', ''BEARING'',
     ''NAME'', ''CAUTION'', ''PLATE'', ''NAME & CAUTION PLATE'', ''NAME AND CAUTION PLATE'',
     ''INSTALLATION'', ''DOOR PLAN'', ''INSULATION PLAN'', ''CRANE'', ''LIFTING BEAM'',
     ''V/D'', ''V-D'', ''VENDOR DRAWING'']"

definition ANCHOR_WORDS :: "string list" where
  "ANCHOR_WORDS =
    [''V/D'', ''VENDOR'', ''DRAWING'',
     ''SPARE'', ''TOOLS'', ''LIST'',
     ''ARRANGEMENT'', ''VALVE'', ''EQUIPMENT'',
     ''NAME'', ''CAUTION'', ''PLATE'',
     ''ICCP'', ''PAINTING'', ''DOCKING'',
     ''FLOWMETER'', ''COOLER'', ''PUMP'',
     ''STEERING'', ''RUDDER'', ''FOUNDATION'', ''CONSTRUCTION'',
     ''INSTALLATION'', ''DOOR'', ''INSULATION'', ''CRANE'', ''LIFTING'',
     ''AIR-CON'', ''AIRCON'', ''PROVISION'', ''REFRIGERATING'']"

definition ALLCAPS_JUNK_WHITELIST :: "string list" where
  "ALLCAPS_JUNK_WHITELIST = [''MAIN'', ''AUX'', ''E/R'', ''ICCP'', ''MGPS'', ''V/V'', ''V/D'']"

definition STAMP_REGEX :: rx where
  "STAMP_REGEX = ci (cat [Wb,
     alts [lit ''DATE'',
           cat [lit ''REV'', opt (chr CHR ''.'')],
           lit ''DESCRIPTION'',
           lit ''OWN'',
           cat [lit ''CHKD'', opt (chr CHR ''.'')],
           cat [lit ''APPD'', opt (chr CHR ''.'')],
           cat [lit ''DWN'', opt (chr CHR ''.'')],
           cat [lit ''CHKD'', star ws, lit ''BY''],
           cat [lit ''APPD'', star ws, lit ''BY''],
           cat [lit ''DWN'', star ws, lit ''BY''],
           cat [lit ''CHKO'', opt (chr CHR ''.''), star ws, lit ''BY''],
           cat [lit ''ISSUED'', star ws, lit ''FOR''],
           cat [lit ''PLAN'', star ws, lit ''HISTORY''],
           cat [lit ''SUBMITTED'', star ws, lit ''TO''],
           cat [lit ''APPROVED'', star ws, lit ''BY''],
           cat [lit ''SHEET'', opt (cat [star ws, lit ''NO''])],
           lit ''SCALE'',
           cat [lit ''PROJECT'', star ws, lit ''NO''],
           cat [lit ''PLAN'', star ws, lit ''NO''],
           cat [lit ''DWG'', star ws, lit ''NO''],
           cat [lit ''DRAWING'', star ws, lit ''NO''],
           lit ''DEPT'',
           lit ''DEPARTMENT'',
           lit ''DSME''],
     Wb])"

text \<open>\<open>_looks_like_stamp_or_revision\<close>, lines 107 to 114.\<close>

definition looks_like_stamp_or_revision :: "string \<Rightarrow> bool" where
  "looks_like_stamp_or_revision line_upper =
     (if line_upper = [] then False
      else if re_found STAMP_REGEX line_upper then True
      else if contains line_upper ''OWN CHKD APPD'' \<or> contains line_upper ''DATE REV'' then True
      else False)"

definition rx_stamp_by :: rx where
  "rx_stamp_by = ci (cat [Wb, alts [lit ''CHKD'', lit ''APPD'', lit ''DWN'', lit ''CHKO''], Wb,
     star ws, opt (chr CHR ''.''), star ws, opt (lit ''BY''), star ws, opt (one_of '':-''), star ws,
     Rep 0 (Some 15) (Sym (\<lambda>c. is_upper_c c \<or> c = CHR ''.'' \<or> is_space_c c))])"

definition rx_stamp_rev :: rx where
  "rx_stamp_rev = ci (cat [Wb,
     alts [lit ''OWN'', cat [lit ''REV'', opt (chr CHR ''.'')], lit ''DATE'', lit ''DESCRIPTION''], Wb,
     star ws, opt (one_of '':-''), star ws,
     Rep 0 (Some 15) (Sym (\<lambda>c. is_upper_c c \<or> is_digit_c c \<or> c = CHR ''.'' \<or> is_space_c c))])"

definition rx_stamp_issue :: rx where
  "rx_stamp_issue = ci (cat [Wb,
     alts [cat [lit ''ISSUED'', star ws, lit ''FOR''],
           cat [lit ''PLAN'', star ws, lit ''HISTORY''],
           cat [lit ''SUBMITTED'', star ws, lit ''TO''],
           cat [lit ''APPROVED'', star ws, lit ''BY'']], Wb,
     star dot])"

text \<open>\<open>_strip_stamp_fragments\<close>, lines 116 to 124.\<close>

definition strip_stamp_fragments :: "(char \<Rightarrow> string) \<Rightarrow> string \<Rightarrow> string" where
  "strip_stamp_fragments nfkd s0 =
     (if s0 = [] then []
      else
        (let s = normalize_text nfkd s0;
             s = re_sub rx_stamp_by '' '' s;
             s = re_sub rx_stamp_rev '' '' s;
             s = re_sub rx_stamp_issue '' '' s;
             s = re_sub STAMP_REGEX '' '' s
         in collapse_ws s))"

section \<open>Anchor slicing\<close>

text \<open>The loop over \<open>ANCHOR_WORDS\<close>: the least index at which one of them occurs.\<close>

fun first_anchor :: "string \<Rightarrow> string list \<Rightarrow> nat option \<Rightarrow> nat option" where
  "first_anchor up [] best = best"
| "first_anchor up (w # rest) best =
     (case py_find up w of
        None \<Rightarrow> first_anchor up rest best
      | Some idx \<Rightarrow>
          first_anchor up rest (case best of None \<Rightarrow> Some idx | Some b \<Rightarrow> Some (min b idx)))"

text \<open>\<open>_slice_from_first_anchor\<close>, lines 159 to 181.\<close>

definition slice_from_first_anchor :: "(char \<Rightarrow> string) \<Rightarrow> string \<Rightarrow> string" where
  "slice_from_first_anchor nfkd s0 =
     (if s0 = [] then []
      else
        (let s = normalize_title_terms nfkd s0 in
         if startswith (py_upper s) ''V/D OF'' then s
         else
           (case first_anchor (py_upper s) ANCHOR_WORDS None of
              None \<Rightarrow> s
            | Some best_idx \<Rightarrow>
                (let head = take best_idx s in
                 if alpha_ratio head < 0.40 \<or> length head > 12 then py_strip (drop best_idx s)
                 else s))))"

section \<open>Token filter\<close>

definition rx_punct2 :: rx where
  "rx_punct2 = Rep 2 None (Sym (\<lambda>c. \<not> is_word_c c \<or> c = CHR ''_''))"

definition rx_quote :: rx where
  "rx_quote = one_of [CHR 0x22, CHR 0x27, CHR '','', CHR 0x60]"

definition rx_letters3 :: rx where
  "rx_letters3 = Rep 3 None (Sym is_alpha_c)"

definition rx_colons :: rx where
  "rx_colons = Rep 1 None (one_of '':;'')"

text \<open>One round of the loop over the tokens: \<open>None\<close> when the token is dropped.\<close>

definition keep_token :: "string \<Rightarrow> string option" where
  "keep_token tok =
     (let t = py_strip tok; tu = py_upper t in
      if tu \<in> set [''AND'', ''OF'', ''FOR'', ''IN'']
        then Some (if tu \<in> set [''OF'', ''FOR'', ''IN''] then py_lower tu else ''and'')
      else if tu \<in> set [''E/R'', ''E-R''] then Some ''E/R''
      else if tu = ''V/D'' then Some ''V/D''
      else if re_fullmatch rx_punct2 t then None
      else if length t \<le> 2 \<and> tu \<notin> set [''ER''] then None
      else if re_found rx_quote t \<and> alpha_ratio t < 0.70 then None
      else if py_isupper t \<and> 3 \<le> length t \<and> length t \<le> 4 \<and> tu \<notin> set ALLCAPS_JUNK_WHITELIST
              \<and> tu \<notin> set [''PLAN'', ''ROOM''] then None
      else if length t \<ge> 3 \<and> py_isalpha t \<and> \<not> has_vowel t \<and> tu \<notin> set ALLCAPS_JUNK_WHITELIST
        then None
      else if alpha_ratio t < 0.25 \<and> \<not> re_found rx_letters3 t then None
      else if re_found rx_colons t \<and> alpha_ratio t < 0.45 then None
      else Some t)"

text \<open>\<open>_drop_garbage_tokens\<close>, lines 183 to 228.\<close>

definition drop_garbage_tokens :: "string \<Rightarrow> string" where
  "drop_garbage_tokens s =
     (if s = [] then []
      else collapse_ws (py_join '' '' (List.map_filter keep_token (py_split s))))"

section \<open>The meaningfulness gate\<close>

definition EXTRA_TITLE_WORDS :: "string list" where
  "EXTRA_TITLE_WORDS = [''PLAN'', ''LIST'', ''ARRANGEMENT'', ''INSTALLATION'', ''DOOR'',
                         ''INSULATION'', ''CRANE'', ''BEAM'', ''SYSTEM'', ''PLANT'']"

text \<open>\<open>_is_meaningful_title\<close>, lines 230 to 243.\<close>

definition is_meaningful_title :: "string \<Rightarrow> bool" where
  "is_meaningful_title s =
     (if s = [] then False
      else
        (let up = py_upper s; words = filter (\<lambda>w. length w \<ge> 3) (py_split s) in
         if length words < 3 \<and> \<not> startswith up ''V/D OF'' then False
         else if startswith up ''V/D OF'' then True
         else if contains_any up SYSTEM_KEYWORDS then True
         else if contains_any up EXTRA_TITLE_WORDS then True
         else False))"

section \<open>The title cleaner\<close>

definition rx_edges :: rx where
  "rx_edges =
     (let edge = Sym (\<lambda>c. \<not> (is_alnum_c c \<or> c \<in> set ''/&()''))
      in Alt (cat [Bol, plus edge]) (cat [plus edge, Eol]))"

definition title_prefixes :: "string list" where
  "title_prefixes =
    [''Manual for'', ''Instruction for'', ''Technical Manual for'',
     ''Title'', ''Ref'', ''Technical'', ''for'',
     ''Instruction Manual -'', ''Final & Instruction Manual for'',
     ''Final Drawings'', ''Instruction Manual'', ''Technical Specification of'',
     ''TITLE:'', ''TITLE'',
     ''DRAWING OF'', ''DRAW I NG OF'', ''VENDOR DWG OF'', ''VENDOR DWG'',
     ''DWG OF'', ''VENDOR DRAWING OF'', ''VENDOR DRAWING'']"

definition rx_prefix :: rx where
  "rx_prefix = ci (cat [Bol, alts (map lit title_prefixes),
                        plus (Sym (\<lambda>c. is_space_c c \<or> c \<in> set '':-._''))])"

definition rx_tel :: rx where
  "rx_tel = ci (cat [star ws, opt (chr CHR ''(''), Wb, chr CHR ''T'', opt ws, chr CHR ''E'', opt ws,
                     chr CHR ''L'', Wb, opt (chr CHR '':''), star dot])"

definition rx_volt :: rx where
  "rx_volt = ci (cat [star ws, opt (chr CHR ''(''), Wb, plus (Sym is_digit_c),
                      alts [lit ''V'', lit ''PH'', lit ''HZ'', lit ''KW''], Wb, star dot])"

definition rx_non_alnum :: rx where
  "rx_non_alnum = Sym (\<lambda>c. \<not> is_alnum_c c)"

definition rx_vd_Of :: rx where
  "rx_vd_Of = ci (cat [Bol, lit ''V/D'', plus ws, lit ''Of'', Wb])"

text \<open>The body of the \<open>while True\<close> loop: one pass over the name.\<close>

definition clean_pass :: "(char \<Rightarrow> string) \<Rightarrow> string \<Rightarrow> string" where
  "clean_pass nfkd name0 =
     (let name = py_strip (re_sub rx_edges [] name0);
          name = slice_from_first_anchor nfkd name;
          name = strip_stamp_fragments nfkd name;
          name = drop_garbage_tokens name;
          name = normalize_title_terms nfkd name
      in py_strip (re_sub rx_prefix [] name))"

text \<open>
  The loop leaves when a pass changes nothing. Nothing in the program bounds the number of
  passes, so the loop is a partial function: \<open>None\<close> is a loop that never leaves.
\<close>

partial_function (option) clean_loop :: "(char \<Rightarrow> string) \<Rightarrow> string \<Rightarrow> string option" where
  "clean_loop nfkd prev =
     (if clean_pass nfkd prev = prev then Some prev else clean_loop nfkd (clean_pass nfkd prev))"

definition smart_word :: "string \<Rightarrow> string" where
  "smart_word w =
     (let wu = py_upper w in
      if wu \<in> set [''E/R'', ''ICCP'', ''MGPS'', ''M.G.P.S'', ''V/V'', ''V/D''] then wu
      else if py_isupper w \<and> length w \<le> 4 then w
      else py_capitalize w)"

definition smart_title :: "string \<Rightarrow> string" where
  "smart_title s = re_sub rx_vd_Of ''V/D of'' (py_join '' '' (map smart_word (py_split s)))"

text \<open>What follows the loop: trailing fragments, the minimum-content gate, the casing.\<close>

definition clean_finish :: "string \<Rightarrow> string" where
  "clean_finish name0 =
     (let name = py_strip (re_sub rx_tel [] name0);
          name = py_strip (re_sub rx_volt [] name);
          name = py_strip (re_sub rx_edges [] name);
          name = collapse_ws name;
          alnum = re_sub rx_non_alnum [] name
      in if length alnum < 4
            \<or> py_upper name \<in> set [''TITLE'', ''MANUAL'', ''REF'', ''PROJECT'', ''DWG'', ''PLAN'']
         then []
         else smart_title name)"

text \<open>\<open>clean_manual_name\<close>, lines 245 to 303.\<close>

definition clean_manual_name :: "(char \<Rightarrow> string) \<Rightarrow> string \<Rightarrow> string option" where
  "clean_manual_name nfkd name =
     (if name = [] then Some []
      else map_option clean_finish (clean_loop nfkd (normalize_title_terms nfkd name)))"

section \<open>Paths\<close>

text \<open>
  \<open>Path(p).name\<close> and \<open>Path(p).stem\<close> of \<open>pathlib\<close>, for POSIX paths: the last component
  that is neither empty nor a single dot, and that component without its last suffix.
\<close>

definition path_name :: "string \<Rightarrow> string" where
  "path_name p =
     (case filter (\<lambda>x. x \<noteq> [] \<and> x \<noteq> ''.'') (split_on CHR ''/'' [] p) of
        [] \<Rightarrow> []
      | x # xs \<Rightarrow> last (x # xs))"

fun rfind_c :: "char \<Rightarrow> string \<Rightarrow> nat option" where
  "rfind_c d [] = None"
| "rfind_c d (c # cs) =
     (case rfind_c d cs of Some i \<Rightarrow> Some (Suc i) | None \<Rightarrow> if c = d then Some 0 else None)"

definition path_stem :: "string \<Rightarrow> string" where
  "path_stem p =
     (let name = path_name p in
      case rfind_c CHR ''.'' name of
        None \<Rightarrow> name
      | Some i \<Rightarrow> if 0 < i \<and> Suc i < length name then take i name else name)"

section \<open>Name identification\<close>

type_synonym metadata = "(string \<rightharpoonup> string) option"

text \<open>
  The drawing number at the start of a file name, \<open>^[A-Z]+\([A-Z]\)-\d+\<close>. The program
  matches it with \<open>(?i)\<close>.
\<close>

definition drawing_no :: rx where
  "drawing_no = cat [Bol, plus (Sym is_upper_c), chr CHR ''('', Sym is_upper_c, chr CHR '')'',
                     chr CHR ''-'', plus (Sym is_digit_c)]"

definition rx_drawing_no :: rx where
  "rx_drawing_no = ci drawing_no"

definition rx_drawing_no_sp :: rx where
  "rx_drawing_no_sp = ci (cat [drawing_no, star ws])"

definition rx_vd_filename :: rx where
  "rx_vd_filename = ci (cat [Wb, chr CHR ''V'', star ws, opt (one_of ''-./''), star ws, chr CHR ''D'',
                             star ws, lit ''OF'', Wb])"

definition rx_title :: rx where
  "rx_title = ci (cat [Wb, lit ''TITLE'', Wb, star ws, opt (one_of '':-'')])"

text \<open>\<open>text.split("\n")\<close>, each line stripped, the blank ones left out, at most 900 kept.\<close>

definition text_lines :: "string \<Rightarrow> string list" where
  "text_lines text =
     take 900 (filter (\<lambda>ln. ln \<noteq> []) (map py_strip (split_on (CHR 0x0A) [] text)))"

definition fn_clean_of :: "string \<Rightarrow> string" where
  "fn_clean_of filename_only =
     (let f = py_strip (re_sub rx_drawing_no_sp [] filename_only);
          f = py_replace_c CHR ''-'' CHR '' '' (py_replace_c CHR ''_'' CHR '' '' f)
      in collapse_ws f)"

text \<open>
  Each strategy answers with a name, or with the empty string when it has none to offer.
  The answer is \<open>None\<close> when the cleaner it calls does not return.
\<close>

definition accept_if_meaningful :: "string option \<Rightarrow> string option" where
  "accept_if_meaningful r =
     (case r of
        None \<Rightarrow> None
      | Some cleaned \<Rightarrow> Some (if cleaned \<noteq> [] \<and> is_meaningful_title cleaned then cleaned else []))"

definition drawing_filename_rule :: "(char \<Rightarrow> string) \<Rightarrow> string \<Rightarrow> string option" where
  "drawing_filename_rule nfkd filename_only =
     (if re_match rx_drawing_no filename_only
          \<and> length (filter (\<lambda>w. length w \<ge> 2) (py_split (fn_clean_of filename_only))) \<ge> 2
      then clean_manual_name nfkd (fn_clean_of filename_only)
      else Some [])"

definition vendor_filename_rule :: "(char \<Rightarrow> string) \<Rightarrow> string \<Rightarrow> string option" where
  "vendor_filename_rule nfkd fn_clean =
     (if re_found rx_vd_filename fn_clean
      then clean_manual_name nfkd (normalize_title_terms nfkd fn_clean)
      else Some [])"

text \<open>The inner loop of the TITLE-block scan, over the (at most 34) lines after the TITLE line.\<close>

fun title_chunk :: "string list \<Rightarrow> string list \<Rightarrow> string list" where
  "title_chunk chunk [] = chunk"
| "title_chunk chunk (l # ls) =
     (let nxt = py_strip l; nxt_up = py_upper nxt in
      if nxt = [] then title_chunk chunk ls
      else if looks_like_stamp_or_revision nxt_up then chunk
      else if contains_any nxt_up [''PROJECT NO'', ''PLAN NO'', ''DWG NO'', ''DRAWING NO'',
                                   ''SHEET'', ''SCALE'', ''DEPT'', ''DSME''] then chunk
      else if alpha_ratio nxt < 0.20 \<and> \<not> re_found rx_letters3 nxt then title_chunk chunk ls
      else
        (let chunk' = chunk @ [nxt]; joined = py_join '' '' chunk' in
         if length joined > 40
              \<and> contains_any (py_upper joined)
                   [''V/D'', ''E/R'', ''PLAN'', ''LIST'', ''ARRANGEMENT'', ''SYSTEM'', ''PLANT'']
         then chunk'
         else title_chunk chunk' ls))"

text \<open>
  The scan itself: \<open>n\<close> counts the lines still to be looked at (320 at the start), the
  list holds the line under the cursor and all lines after it.
\<close>

fun title_block_scan :: "(char \<Rightarrow> string) \<Rightarrow> nat \<Rightarrow> string list \<Rightarrow> string option" where
  "title_block_scan nfkd n [] = Some []"
| "title_block_scan nfkd 0 (line # rest) = Some []"
| "title_block_scan nfkd (Suc n) (line # rest) =
     (case re_search rx_title line of
        None \<Rightarrow> title_block_scan nfkd n rest
      | Some m \<Rightarrow>
          (case accept_if_meaningful
                  (clean_manual_name nfkd
                     (py_join '' '' (title_chunk [drop (fst m) line] (take 34 rest)))) of
             None \<Rightarrow> None
           | Some cleaned \<Rightarrow> if cleaned \<noteq> [] then Some cleaned else title_block_scan nfkd n rest))"

fun merged_title_scan :: "(char \<Rightarrow> string) \<Rightarrow> string list \<Rightarrow> string option" where
  "merged_title_scan nfkd [] = Some []"
| "merged_title_scan nfkd (line # rest) =
     (let up = py_upper line in
      case py_find up ''TITLE'' of
        None \<Rightarrow> merged_title_scan nfkd rest
      | Some idx \<Rightarrow>
          if contains_any up [''V-D'', ''V/D'', ''SPARE'', ''ARR'', ''NAME'', ''VALVE'', ''EQUIPMENT'',
                              ''SYSTEM'', ''PLANT'']
          then
            (case accept_if_meaningful (clean_manual_name nfkd (drop idx line)) of
               None \<Rightarrow> None
             | Some cleaned \<Rightarrow> if cleaned \<noteq> [] then Some cleaned else merged_title_scan nfkd rest)
          else merged_title_scan nfkd rest)"

text \<open>The inner loop of the keyword scan, over the (at most 11) lines after the keyword line.\<close>

fun keyword_candidate :: "string \<Rightarrow> string list \<Rightarrow> string" where
  "keyword_candidate candidate [] = candidate"
| "keyword_candidate candidate (l # ls) =
     (let nxt = py_strip l; nxt_up = py_upper nxt in
      if looks_like_stamp_or_revision nxt_up then candidate
      else if alpha_ratio nxt < 0.18 \<and> \<not> re_found rx_letters3 nxt then keyword_candidate candidate ls
      else
        (let candidate' = candidate @ '' '' @ nxt in
         if length candidate' > 360 then candidate' else keyword_candidate candidate' ls))"

text \<open>
  The keyword scan. The program walks the keywords, longest first, and for each keyword
  found in the line builds and cleans a candidate; the candidate depends on the line and
  on the lines after it only, so every keyword found gives the same answer, and the walk
  is the one test whether the line holds a keyword at all.
\<close>

fun keyword_scan :: "(char \<Rightarrow> string) \<Rightarrow> nat \<Rightarrow> string list \<Rightarrow> string option" where
  "keyword_scan nfkd n [] = Some []"
| "keyword_scan nfkd 0 (line # rest) = Some []"
| "keyword_scan nfkd (Suc n) (line # rest) =
     (let up = py_upper line in
      if looks_like_stamp_or_revision up then keyword_scan nfkd n rest
      else if alpha_ratio line < 0.18 \<and> \<not> re_found rx_letters3 line then keyword_scan nfkd n rest
      else if contains_any up SYSTEM_KEYWORDS \<and> length line < 260 then
        (case accept_if_meaningful
                (clean_manual_name nfkd (keyword_candidate line (take 11 rest))) of
           None \<Rightarrow> None
         | Some cleaned \<Rightarrow> if cleaned \<noteq> [] then Some cleaned else keyword_scan nfkd n rest)
      else keyword_scan nfkd n rest)"

text \<open>
  \<open>re.search(pat, text).group(1)\<close> for a pattern whose one group closes the pattern: the
  pattern is given as the part before the group and the group, and the answer is the text
  the group matched in the leftmost match.
\<close>

definition group_end :: "cursor \<Rightarrow> cursor \<Rightarrow> (cursor \<times> cursor) option" where
  "group_end c1 c2 = Some (c1, c2)"

definition group_k :: "rx \<Rightarrow> cursor \<Rightarrow> (cursor \<times> cursor) option" where
  "group_k g c1 = rx_m g (group_end c1) c1"

definition group_text :: "cursor \<times> cursor \<Rightarrow> string" where
  "group_text m = take (length (snd (fst m)) - length (snd (snd m))) (snd (fst m))"

fun find_group :: "rx \<Rightarrow> rx \<Rightarrow> char option \<Rightarrow> string \<Rightarrow> string option" where
  "find_group p g prev [] = map_option group_text (rx_m p (group_k g) (prev, []))"
| "find_group p g prev (c # cs) =
     (case rx_m p (group_k g) (prev, c # cs) of
        Some m \<Rightarrow> Some (group_text m)
      | None \<Rightarrow> find_group p g (Some c) cs)"

definition re_search_group :: "rx \<times> rx \<Rightarrow> string \<Rightarrow> string option" where
  "re_search_group pat s = find_group (fst pat) (snd pat) None s"

text \<open>
  \<open>LABEL_PATTERNS\<close>, in the order in which the program walks its labels (which is the
  order of the table). All four are searched with \<open>re.IGNORECASE\<close>.
\<close>

definition LABEL_PATTERNS :: "(string \<times> rx \<times> rx) list" where
  "LABEL_PATTERNS =
    [(''Document Title'',
        ci (cat [alts [lit ''Title'', lit ''Manual for'', lit ''Drawing Title'', lit ''Plan Title''],
                 star ws, one_of '':-'', star ws]),
        ci (plus (Sym (\<lambda>c. is_upper_c c \<or> is_space_c c \<or> c \<in> set ''/&.-'')))),
     (''Engine Type'',
        ci (cat [alts [lit ''Engine'', lit ''M/E'', lit ''A/E''], star ws, lit ''type'', star ws,
                 opt (one_of '':-''), star ws]),
        ci (plus (Sym (\<lambda>c. is_upper_c c \<or> is_digit_c c \<or> c \<in> set ''/.-'')))),
     (''Ship No'',
        ci (cat [alts [lit ''Ship'', lit ''Hull'', lit ''Project'',
                       cat [chr CHR ''H'', opt (chr CHR ''.''), lit ''NO'', opt (chr CHR ''.'')]],
                 star ws, alts [cat [lit ''no'', opt (chr CHR ''.'')], lit ''Number''], star ws,
                 opt (one_of '':-''), star ws]),
        ci (plus (Sym (\<lambda>c. is_upper_c c \<or> is_digit_c c \<or> c \<in> set ''/.-'')))),
     (''Vessel Name'',
        ci (cat [alts [lit ''Vessel'', lit ''Ship''], star ws, lit ''Name'', star ws,
                 opt (one_of '':-''), star ws]),
        ci (plus (Sym (\<lambda>c. is_upper_c c \<or> is_space_c c))))]"

fun label_scan :: "(char \<Rightarrow> string) \<Rightarrow> string \<Rightarrow> (string \<times> rx \<times> rx) list \<Rightarrow> string option" where
  "label_scan nfkd text [] = Some []"
| "label_scan nfkd text (lp # rest) =
     (case re_search_group (snd lp) text of
        None \<Rightarrow> label_scan nfkd text rest
      | Some found \<Rightarrow>
          (case accept_if_meaningful (clean_manual_name nfkd (py_strip found)) of
             None \<Rightarrow> None
           | Some cleaned \<Rightarrow> if cleaned \<noteq> [] then Some cleaned else label_scan nfkd text rest))"

definition metadata_rule :: "(char \<Rightarrow> string) \<Rightarrow> metadata \<Rightarrow> string option" where
  "metadata_rule nfkd md =
     (case md of
        None \<Rightarrow> Some []
      | Some m \<Rightarrow>
          (case m ''/Title'' of
             None \<Rightarrow> Some []
           | Some v \<Rightarrow>
               if v = [] then Some []
               else
                 (let title = py_strip v in
                  if length title > 5 \<and> py_lower title \<notin> set [''untitled'', ''none'', ''1'']
                  then accept_if_meaningful (clean_manual_name nfkd title)
                  else Some [])))"

definition folder_fallback :: "(char \<Rightarrow> string) \<Rightarrow> string \<Rightarrow> string \<Rightarrow> string option" where
  "folder_fallback nfkd folder_name fn_clean =
     clean_manual_name nfkd (strip_with (\<lambda>c. c \<in> set '' -'') (folder_name @ '' - '' @ fn_clean))"

text \<open>The first strategy with a name wins; a strategy that does not return stops the chain.\<close>

definition or_else :: "string option \<Rightarrow> string option \<Rightarrow> string option" where
  "or_else a b = (case a of None \<Rightarrow> None | Some r \<Rightarrow> if r \<noteq> [] then Some r else b)"

text \<open>\<open>x or ""\<close>: Python's \<open>None\<close> and the empty string are one to the program.\<close>

definition or_empty :: "string option \<Rightarrow> string" where
  "or_empty x = (case x of None \<Rightarrow> [] | Some s \<Rightarrow> s)"

text \<open>\<open>identify_manual_name\<close>, lines 305 to 416.\<close>

definition identify_manual_name ::
    "(char \<Rightarrow> string) \<Rightarrow> string option \<Rightarrow> string option \<Rightarrow> string \<Rightarrow> metadata \<Rightarrow> string option" where
  "identify_manual_name nfkd text0 filename folder_path md =
     (let text = or_empty text0;
          lines = text_lines text;
          filename_only = (if or_empty filename \<noteq> [] then path_stem (or_empty filename) else []);
          folder_name = (if folder_path \<noteq> [] then path_name folder_path else []);
          fn_clean = fn_clean_of filename_only
      in or_else (drawing_filename_rule nfkd filename_only)
        (or_else (vendor_filename_rule nfkd fn_clean)
        (or_else (title_block_scan nfkd 320 lines)
        (or_else (merged_title_scan nfkd (take 420 lines))
        (or_else (keyword_scan nfkd 550 lines)
        (or_else (label_scan nfkd text LABEL_PATTERNS)
        (or_else (metadata_rule nfkd md)
                 (folder_fallback nfkd folder_name fn_clean))))))))"

section \<open>Document type\<close>

definition combined_text :: "(char \<Rightarrow> string) \<Rightarrow> string option \<Rightarrow> string option \<Rightarrow> string \<Rightarrow> string" where
  "combined_text nfkd text filename folder_path =
     py_lower (normalize_text nfkd (or_empty text) @ '' '' @ normalize_text nfkd (or_empty filename)
               @ '' '' @ normalize_text nfkd (path_name folder_path))"

definition manual_words :: "string list" where
  "manual_words = [''manual'', ''instruction'', ''handbook'', ''guide'', ''tmm'', ''operation manual'',
                   ''maintenance manual'']"

definition capacity_words :: "string list" where
  "capacity_words = [''capacity plan'', ''tank capacity'', ''tank table'', ''sounding table'',
                     ''deadweight scale'']"

definition certificate_words :: "string list" where
  "certificate_words = [''certificate'', ''report'', ''test result'', ''approval'',
                        ''inclining experiment'', ''sea trial'', ''test record'']"

definition drawing_words :: "string list" where
  "drawing_words = [''drawing'', ''diagram'', ''schematic'', ''blueprint'', ''arr't'', ''arrangment'',
                    ''arrangement'', ''plan'', ''details of'', ''v/d'', ''v/dwg'', ''vendor drawing'']"

definition equipment_words :: "string list" where
  "equipment_words =
    [''equipment list'', ''v/v list'', ''valve list'', ''flowmeter'', ''plate type cooler'',
     ''centrifugal pump'', ''m.g.p.s'', ''prevention system'', ''name and caution plate'',
     ''door plan'', ''insulation plan'', ''installation of'', ''lifting beam'', ''crane'',
     ''air-con system'', ''provision refrigerating plant'', ''vendor drawing'', ''v/d of'']"

definition structure_words :: "string list" where
  "structure_words = [''structure'', ''construction'', ''body plan'', ''shell expansion'',
                      ''deck and stringer'', ''bulkhead'', ''frames'', ''coamings'', ''fore body'']"

text \<open>\<open>classify_doc_type\<close>, lines 418 to 445: the buckets, in order.\<close>

definition classify_combined :: "string \<Rightarrow> string" where
  "classify_combined combined =
     (if contains_any combined manual_words then ''Machinery/System Manual''
      else if contains_any combined capacity_words then ''Capacity Plan / Datasheet''
      else if contains_any combined certificate_words then ''Certificate / Report''
      else if contains_any combined drawing_words \<and> \<not> contains combined ''manual'' then ''Drawing''
      else if contains_any combined equipment_words \<and> \<not> contains combined ''manual'' then ''Drawing''
      else if contains_any combined structure_words then ''Drawing''
      else ''Unknown'')"

definition classify_doc_type :: "(char \<Rightarrow> string) \<Rightarrow> string option \<Rightarrow> string option \<Rightarrow> string \<Rightarrow> string" where
  "classify_doc_type nfkd text filename folder_path =
     classify_combined (combined_text nfkd text filename folder_path)"

section \<open>Confidence\<close>




section \<open>Normal forms of the text normaliser\<close>

text \<open>
  \<open>squeeze\<close> says what \<open>re.sub(r"\s+", " ", s)\<close> computes: every run of white space
  becomes one space.
\<close>

function squeeze :: "string \<Rightarrow> string" where
  "squeeze [] = []"
| "squeeze (c # cs) =
     (if is_space_c c then CHR '' '' # squeeze (dropWhile is_space_c cs) else c # squeeze cs)"
  by pat_completeness auto
termination
  by (relation "measure length") (auto simp add: length_dropWhile_le less_Suc_eq_le)

text \<open>A string in which white space occurs as single spaces only.\<close>

fun squeezed :: "string \<Rightarrow> bool" where
  "squeezed [] = True"
| "squeezed [c] = (\<not> is_space_c c \<or> c = CHR '' '')"
| "squeezed (c # d # cs) =
     ((\<not> is_space_c c \<or> (c = CHR '' '' \<and> \<not> is_space_c d)) \<and> squeezed (d # cs))"

text \<open>What \<open>normalize_text\<close> leaves alone.\<close>

definition tidy :: "string \<Rightarrow> bool" where
  "tidy s = (list_all is_ascii_c s \<and> CHR 0x00 \<notin> set s \<and> squeezed s \<and> py_strip s = s)"

section \<open>A family of names\<close>

text \<open>
  The names \<open>V/D of\<close>, any number of further \<open>of\<close>, \<open>MAIN ENGINE\<close>, with no space
  between the last \<open>of\<close> and \<open>MAIN\<close>.
\<close>

definition ofs :: "nat \<Rightarrow> string" where
  "ofs k = concat (replicate k ''of'')"

definition vd_state :: "nat \<Rightarrow> string" where
  "vd_state k = ''V/D of'' @ ofs k @ ''MAIN ENGINE''"

section \<open>Evaluating the character tables\<close>

text \<open>
  The tables above are lists of characters. For evaluation each of them is restated on the
  eight bits of a character; the restatements are proved from the tables.
\<close>

lemma char_enum_all: "list_all P (Enum.enum :: char list) \<Longrightarrow> P c"
  by (simp add: list_all_iff enum_UNIV)

lemma is_upper_c_table:
  "list_all (\<lambda>c. is_upper_c c = (case c of Char b0 b1 b2 b3 b4 b5 b6 b7 \<Rightarrow>
     (\<not> b7 \<and> b6 \<and> \<not> b5 \<and> (b0 \<or> b1 \<or> b2 \<or> b3 \<or> b4) \<and> \<not> (b4 \<and> b3 \<and> (b2 \<or> (b1 \<and> b0)))))) Enum.enum"
  by code_simp

lemma is_upper_c_bits [code]:
  "is_upper_c (Char b0 b1 b2 b3 b4 b5 b6 b7) =
     (\<not> b7 \<and> b6 \<and> \<not> b5 \<and> (b0 \<or> b1 \<or> b2 \<or> b3 \<or> b4) \<and> \<not> (b4 \<and> b3 \<and> (b2 \<or> (b1 \<and> b0))))"
  using char_enum_all [OF is_upper_c_table, of "Char b0 b1 b2 b3 b4 b5 b6 b7"] by simp

lemma is_lower_c_table:
  "list_all (\<lambda>c. is_lower_c c = (case c of Char b0 b1 b2 b3 b4 b5 b6 b7 \<Rightarrow>
     (\<not> b7 \<and> b6 \<and> b5 \<and> (b0 \<or> b1 \<or> b2 \<or> b3 \<or> b4) \<and> \<not> (b4 \<and> b3 \<and> (b2 \<or> (b1 \<and> b0)))))) Enum.enum"
  by code_simp

lemma is_lower_c_bits [code]:
  "is_lower_c (Char b0 b1 b2 b3 b4 b5 b6 b7) =
     (\<not> b7 \<and> b6 \<and> b5 \<and> (b0 \<or> b1 \<or> b2 \<or> b3 \<or> b4) \<and> \<not> (b4 \<and> b3 \<and> (b2 \<or> (b1 \<and> b0))))"
  using char_enum_all [OF is_lower_c_table, of "Char b0 b1 b2 b3 b4 b5 b6 b7"] by simp

lemma is_digit_c_table:
  "list_all (\<lambda>c. is_digit_c c = (case c of Char b0 b1 b2 b3 b4 b5 b6 b7 \<Rightarrow>
     (\<not> b7 \<and> \<not> b6 \<and> b5 \<and> b4 \<and> \<not> (b3 \<and> (b2 \<or> b1))))) Enum.enum"
  by code_simp

lemma is_digit_c_bits [code]:
  "is_digit_c (Char b0 b1 b2 b3 b4 b5 b6 b7) =
     (\<not> b7 \<and> \<not> b6 \<and> b5 \<and> b4 \<and> \<not> (b3 \<and> (b2 \<or> b1)))"
  using char_enum_all [OF is_digit_c_table, of "Char b0 b1 b2 b3 b4 b5 b6 b7"] by simp

lemma is_space_c_table:
  "list_all (\<lambda>c. is_space_c c = (case c of Char b0 b1 b2 b3 b4 b5 b6 b7 \<Rightarrow>
     (\<not> b7 \<and> \<not> b6 \<and>
      ((b5 \<and> \<not> b4 \<and> \<not> b3 \<and> \<not> b2 \<and> \<not> b1 \<and> \<not> b0) \<or>
       (\<not> b5 \<and> \<not> b4 \<and> b3 \<and> (b0 \<or> b1 \<or> b2) \<and> \<not> (b2 \<and> b1)) \<or>
       (\<not> b5 \<and> b4 \<and> b3 \<and> b2))))) Enum.enum"
  by code_simp

lemma is_space_c_bits [code]:
  "is_space_c (Char b0 b1 b2 b3 b4 b5 b6 b7) =
     (\<not> b7 \<and> \<not> b6 \<and>
      ((b5 \<and> \<not> b4 \<and> \<not> b3 \<and> \<not> b2 \<and> \<not> b1 \<and> \<not> b0) \<or>
       (\<not> b5 \<and> \<not> b4 \<and> b3 \<and> (b0 \<or> b1 \<or> b2) \<and> \<not> (b2 \<and> b1)) \<or>
       (\<not> b5 \<and> b4 \<and> b3 \<and> b2)))"
  using char_enum_all [OF is_space_c_table, of "Char b0 b1 b2 b3 b4 b5 b6 b7"] by simp

lemma is_word_c_table:
  "list_all (\<lambda>c. is_word_c c = (case c of Char b0 b1 b2 b3 b4 b5 b6 b7 \<Rightarrow>
     (\<not> b7 \<and>
      ((b6 \<and> (b0 \<or> b1 \<or> b2 \<or> b3 \<or> b4) \<and> \<not> (b4 \<and> b3 \<and> (b2 \<or> (b1 \<and> b0)))) \<or>
       (\<not> b6 \<and> b5 \<and> b4 \<and> \<not> (b3 \<and> (b2 \<or> b1))) \<or>
       (b6 \<and> \<not> b5 \<and> b4 \<and> b3 \<and> b2 \<and> b1 \<and> b0))))) Enum.enum"
  by code_simp

lemma is_word_c_bits [code]:
  "is_word_c (Char b0 b1 b2 b3 b4 b5 b6 b7) =
     (\<not> b7 \<and>
      ((b6 \<and> (b0 \<or> b1 \<or> b2 \<or> b3 \<or> b4) \<and> \<not> (b4 \<and> b3 \<and> (b2 \<or> (b1 \<and> b0)))) \<or>
       (\<not> b6 \<and> b5 \<and> b4 \<and> \<not> (b3 \<and> (b2 \<or> b1))) \<or>
       (b6 \<and> \<not> b5 \<and> b4 \<and> b3 \<and> b2 \<and> b1 \<and> b0)))"
  using char_enum_all [OF is_word_c_table, of "Char b0 b1 b2 b3 b4 b5 b6 b7"] by simp

lemma upper_c_table:
  "list_all (\<lambda>c. upper_c c = (case c of Char b0 b1 b2 b3 b4 b5 b6 b7 \<Rightarrow>
     (if is_lower_c (Char b0 b1 b2 b3 b4 b5 b6 b7) then Char b0 b1 b2 b3 b4 False b6 b7
      else Char b0 b1 b2 b3 b4 b5 b6 b7))) Enum.enum"
  by code_simp

lemma upper_c_bits [code]:
  "upper_c (Char b0 b1 b2 b3 b4 b5 b6 b7) =
     (if is_lower_c (Char b0 b1 b2 b3 b4 b5 b6 b7) then Char b0 b1 b2 b3 b4 False b6 b7
      else Char b0 b1 b2 b3 b4 b5 b6 b7)"
  using char_enum_all [OF upper_c_table, of "Char b0 b1 b2 b3 b4 b5 b6 b7"] by simp

lemma lower_c_table:
  "list_all (\<lambda>c. lower_c c = (case c of Char b0 b1 b2 b3 b4 b5 b6 b7 \<Rightarrow>
     (if is_upper_c (Char b0 b1 b2 b3 b4 b5 b6 b7) then Char b0 b1 b2 b3 b4 True b6 b7
      else Char b0 b1 b2 b3 b4 b5 b6 b7))) Enum.enum"
  by code_simp

lemma lower_c_bits [code]:
  "lower_c (Char b0 b1 b2 b3 b4 b5 b6 b7) =
     (if is_upper_c (Char b0 b1 b2 b3 b4 b5 b6 b7) then Char b0 b1 b2 b3 b4 True b6 b7
      else Char b0 b1 b2 b3 b4 b5 b6 b7)"
  using char_enum_all [OF lower_c_table, of "Char b0 b1 b2 b3 b4 b5 b6 b7"] by simp

declare clean_loop.simps [code]

section \<open>The meaningfulness gate, characterised\<close>

lemma contains_any_iff: "contains_any s ks \<longleftrightarrow> (\<exists>k\<in>set ks. contains s k)"
  by (simp add: contains_any_def list_ex_iff)



section \<open>The vendor-drawing keywords of the classifier\<close>

text \<open>
  Claim C6, as amended. The fourth bucket of \<open>classify_doc_type\<close> holds \<open>v/d\<close> and
  \<open>v/dwg\<close>, written with a slash. When the combined, normalised, lower-cased string
  contains \<open>v/d\<close> or \<open>v/dwg\<close>, does not contain \<open>manual\<close>, and matches none of the first
  three buckets, the answer is \<open>Drawing\<close>.
\<close>

theorem vd_slash_is_drawing:
  assumes "contains (combined_text nfkd text filename folder_path) ''v/d''
           \<or> contains (combined_text nfkd text filename folder_path) ''v/dwg''"
    and "\<not> contains (combined_text nfkd text filename folder_path) ''manual''"
    and "\<not> contains_any (combined_text nfkd text filename folder_path) manual_words"
    and "\<not> contains_any (combined_text nfkd text filename folder_path) capacity_words"
    and "\<not> contains_any (combined_text nfkd text filename folder_path) certificate_words"
  shows "classify_doc_type nfkd text filename folder_path = ''Drawing''"
proof -
  have "contains_any (combined_text nfkd text filename folder_path) drawing_words"
    using assms(1) by (auto simp add: contains_any_iff drawing_words_def)
  then show ?thesis
    using assms(2-5) by (simp add: classify_doc_type_def classify_combined_def)
qed

theorem vd_slash_is_drawing_witness:
  "classify_doc_type no_fold (Some ''Valve List V/D of Pump'') (Some ''x.pdf'') ''/ships/hull1'' = ''Drawing''"
proof -
  have c: "combined_text no_fold (Some ''Valve List V/D of Pump'') (Some ''x.pdf'') ''/ships/hull1''
           = ''valve list v/d of pump x.pdf hull1''" by code_simp
  have 1: "contains ''valve list v/d of pump x.pdf hull1'' ''v/d''" by code_simp
  have 2: "\<not> contains ''valve list v/d of pump x.pdf hull1'' ''manual''" by code_simp
  have 3: "\<not> contains_any ''valve list v/d of pump x.pdf hull1'' manual_words" by code_simp
  have 4: "\<not> contains_any ''valve list v/d of pump x.pdf hull1'' capacity_words" by code_simp
  have 5: "\<not> contains_any ''valve list v/d of pump x.pdf hull1'' certificate_words" by code_simp
  show ?thesis
    using vd_slash_is_drawing [of no_fold "Some ''Valve List V/D of Pump''" "Some ''x.pdf''" "''/ships/hull1''"]
      1 2 3 4 5 unfolding c by blast
qed

text \<open>
  The claim as the specification words it, with a hyphen, fails: the text \<open>v-d\<close> alone
  contains \<open>v-d\<close>, no \<open>manual\<close> and nothing of the first three buckets, and is classified
  \<open>Unknown\<close>.
\<close>

theorem vd_hyphen_is_unknown:
  "contains (combined_text no_fold (Some ''v-d'') None []) ''v-d''
   \<and> \<not> contains (combined_text no_fold (Some ''v-d'') None []) ''manual''
   \<and> \<not> contains_any (combined_text no_fold (Some ''v-d'') None []) manual_words
   \<and> \<not> contains_any (combined_text no_fold (Some ''v-d'') None []) capacity_words
   \<and> \<not> contains_any (combined_text no_fold (Some ''v-d'') None []) certificate_words
   \<and> classify_doc_type no_fold (Some ''v-d'') None [] = ''Unknown''"
  by code_simp

section \<open>The confidence scorer\<close>






section \<open>Matching without regard to case\<close>




section \<open>The strategy chain\<close>

lemma or_else_Some [simp]: "r \<noteq> [] \<Longrightarrow> or_else (Some r) b = Some r"
  by (simp add: or_else_def)

lemma or_else_Nil [simp]: "or_else (Some []) b = b"
  by (simp add: or_else_def)

lemma is_meaningful_title_Nil [simp]: "\<not> is_meaningful_title []"
  by (simp add: is_meaningful_title_def)



section \<open>The metadata title\<close>

lemma no_text_strategies:
  "title_block_scan nfkd 320 (text_lines (or_empty (Some []))) = Some []"
  "merged_title_scan nfkd (take 420 (text_lines (or_empty (Some [])))) = Some []"
  "keyword_scan nfkd 550 (text_lines (or_empty (Some []))) = Some []"
  by (simp_all add: or_empty_def text_lines_def py_strip_def strip_with_def)

lemma no_text_labels: "label_scan nfkd (or_empty (Some [])) LABEL_PATTERNS = Some []"
proof -
  have "\<forall>lp \<in> set LABEL_PATTERNS. re_search_group (snd lp) [] = None" by code_simp
  then show ?thesis by (simp add: or_empty_def LABEL_PATTERNS_def)
qed









section \<open>Cleaning twice\<close>

text \<open>
  Claim C1. Cleaning is not idempotent. The casing step after the loop turns \<open>a12\<close> into
  \<open>A12\<close>; a second run sees a token of three characters whose only letter is a capital,
  takes it for an all-capitals fragment and drops it. Both results pass the
  minimum-content gate.
\<close>

theorem clean_manual_name_not_idempotent:
  "clean_manual_name no_fold ''a12 unit'' = Some ''A12 Unit''
   \<and> clean_manual_name no_fold ''A12 Unit'' = Some ''Unit''"
proof -
  have 1: "clean_manual_name no_fold ''a12 unit'' = Some ''A12 Unit''" by code_simp
  have 2: "clean_manual_name no_fold ''A12 Unit'' = Some ''Unit''" by code_simp
  show ?thesis using 1 2 by simp
qed

section \<open>Normalising twice\<close>

lemma rep_sym_run:
  "rep_m (rx_m (Sym p)) lo None s Some (prev, s) =
     (if lo \<le> length (takeWhile p s)
      then Some (if takeWhile p s = [] then prev else Some (last (takeWhile p s)), dropWhile p s)
      else None)"
proof (induction s arbitrary: lo prev)
  case Nil
  then show ?case by simp
next
  case (Cons c cs)
  show ?case
  proof (cases "p c")
    case True
    then show ?thesis using Cons.IH [of "lo - 1" "Some c"] by (auto split: option.splits)
  next
    case False
    then show ?thesis by simp
  qed
qed

lemma match_spaces:
  "match_here rx_spaces (prev, s) =
     (if s \<noteq> [] \<and> is_space_c (hd s)
      then Some (Some (last (takeWhile is_space_c s)), dropWhile is_space_c s) else None)"
proof (cases s)
  case Nil
  then show ?thesis by (simp add: match_here_def rx_spaces_def plus_def ws_def)
next
  case (Cons c cs)
  then show ?thesis
    using rep_sym_run [of is_space_c 1 s prev]
    by (auto simp add: match_here_def rx_spaces_def plus_def ws_def)
qed

lemma sub_spaces: "sub_from rx_spaces '' '' prev s = squeeze s"
proof (induction s arbitrary: prev rule: squeeze.induct)
  case 1
  then show ?case by (simp add: match_spaces)
next
  case (2 c cs)
  show ?case
  proof (cases "is_space_c c")
    case True
    have "length (dropWhile is_space_c cs) < Suc (length cs)"
      using length_dropWhile_le [of is_space_c cs] by simp
    then show ?thesis using True 2 by (simp add: match_spaces)
  next
    case False
    then show ?thesis using 2 by (simp add: match_spaces)
  qed
qed

lemma collapse_ws_squeeze: "collapse_ws s = py_strip (squeeze s)"
  by (simp add: collapse_ws_def re_sub_def sub_spaces)

lemma space_is_space [simp]: "is_space_c CHR '' ''"
  by (simp add: is_space_c_def)

lemma dropWhile_space_head: "dropWhile is_space_c cs = d # ds \<Longrightarrow> \<not> is_space_c d"
  using hd_dropWhile [of is_space_c cs] by auto

lemma squeezed_squeeze: "squeezed (squeeze s)"
proof (induction s rule: squeeze.induct)
  case 1
  then show ?case by simp
next
  case (2 c cs)
  show ?case
  proof (cases "is_space_c c")
    case True
    show ?thesis
    proof (cases "dropWhile is_space_c cs")
      case Nil
      have "squeeze (c # cs) = '' ''" using True by (simp only: squeeze.simps Nil if_True)
      then show ?thesis by simp
    next
      case (Cons d ds)
      have nd: "\<not> is_space_c d" using Cons by (rule dropWhile_space_head)
      have eq: "squeeze (c # cs) = CHR '' '' # squeeze (d # ds)"
        using True by (simp only: squeeze.simps Cons if_True)
      have sq: "squeeze (d # ds) = d # squeeze ds" using nd by simp
      have "squeezed (squeeze (d # ds))" using 2(1) [OF True] by (simp only: Cons)
      then have "squeezed (d # squeeze ds)" by (simp only: sq)
      then show ?thesis unfolding eq sq using nd by simp
    qed
  next
    case False
    then show ?thesis using 2 by (cases cs) auto
  qed
qed

lemma squeeze_squeezed: "squeezed s \<Longrightarrow> squeeze s = s"
proof (induction s rule: squeezed.induct)
  case (3 c d cs)
  then show ?case by auto
qed auto

lemma squeezed_append_left: "squeezed (xs @ ys) \<Longrightarrow> squeezed xs"
proof (induction xs rule: squeezed.induct)
  case (2 c)
  then show ?case by (cases ys) auto
qed auto

lemma squeezed_append_right: "squeezed (xs @ ys) \<Longrightarrow> squeezed ys"
proof (induction xs rule: squeezed.induct)
  case (2 c)
  then show ?case by (cases ys) auto
qed auto

lemma squeezed_strip: "squeezed s \<Longrightarrow> squeezed (strip_with p s)"
proof -
  assume s: "squeezed s"
  have "squeezed (dropWhile p s)"
    using s squeezed_append_right [of "takeWhile p s" "dropWhile p s"] by simp
  moreover have "dropWhile p s = rev (dropWhile p (rev (dropWhile p s))) @ rev (takeWhile p (rev (dropWhile p s)))"
    by (metis rev_append rev_rev_ident takeWhile_dropWhile_id)
  ultimately show ?thesis
    unfolding strip_with_def using squeezed_append_left by metis
qed

lemma strip_with_idem: "strip_with p (strip_with p s) = strip_with p s"
proof -
  let ?d = "dropWhile p s"
  let ?y = "rev (dropWhile p (rev ?d))"
  have d: "?d = ?y @ rev (takeWhile p (rev ?d))"
    by (metis rev_append rev_rev_ident takeWhile_dropWhile_id)
  have "?y = [] \<or> \<not> p (hd ?y)"
  proof (cases "?y = []")
    case False
    then have "hd ?y = hd ?d" using d by (metis hd_append2)
    moreover have "?d \<noteq> []" using d False by (metis append_is_Nil_conv)
    then have "\<not> p (hd ?d)" by (rule hd_dropWhile)
    ultimately show ?thesis by simp
  qed simp
  then have hd_ok: "dropWhile p ?y = ?y" by (simp only: dropWhile_eq_self_iff)
  show ?thesis unfolding strip_with_def by (simp only: hd_ok rev_rev_ident dropWhile_idem)
qed

lemma set_dropWhile_subset: "set (dropWhile p xs) \<subseteq> set xs"
  by (auto dest: set_dropWhileD)

lemma set_squeeze: "set (squeeze s) \<subseteq> insert CHR '' '' (set s)"
proof (induction s rule: squeeze.induct)
  case 1
  then show ?case by simp
next
  case (2 c cs)
  show ?case
  proof (cases "is_space_c c")
    case True
    then have "set (squeeze (dropWhile is_space_c cs)) \<subseteq> insert CHR '' '' (set cs)"
      using 2(1) set_dropWhile_subset [of is_space_c cs] by blast
    then show ?thesis using True by auto
  next
    case False
    then show ?thesis using 2(2) by auto
  qed
qed

lemma set_strip_with: "set (strip_with p s) \<subseteq> set s"
proof -
  have "set (strip_with p s) = set (dropWhile p (rev (dropWhile p s)))"
    by (simp add: strip_with_def)
  also have "\<dots> \<subseteq> set (rev (dropWhile p s))" by (rule set_dropWhile_subset)
  also have "\<dots> = set (dropWhile p s)" by simp
  also have "\<dots> \<subseteq> set s" by (rule set_dropWhile_subset)
  finally show ?thesis .
qed

lemma ascii_fold_ascii: "list_all is_ascii_c s \<Longrightarrow> ascii_fold nfkd s = s"
  by (induction s) (simp_all add: ascii_fold_def)

lemma list_all_filter_same: "list_all p (filter p xs)"
  by (induction xs) simp_all

lemma ascii_fold_Cons:
  "ascii_fold nfkd (c # s) = (if is_ascii_c c then [c] else filter is_ascii_c (nfkd c)) @ ascii_fold nfkd s"
  by (simp add: ascii_fold_def)

lemma ascii_fold_Nil: "ascii_fold nfkd [] = []"
  by (simp add: ascii_fold_def)

lemma ascii_fold_is_ascii: "list_all is_ascii_c (ascii_fold nfkd s)"
  by (induction s) (simp_all add: ascii_fold_Cons ascii_fold_Nil list_all_filter_same)
lemma replace_absent: "a \<notin> set s \<Longrightarrow> py_replace_c a b s = s"
  by (induction s) (auto simp add: py_replace_c_def)

lemma space_is_ascii: "is_ascii_c CHR '' ''"
  by (simp add: is_ascii_c_def)

lemma normalize_text_tidy: "tidy s \<Longrightarrow> normalize_text nfkd s = s"
  by (simp add: tidy_def normalize_text_def ascii_fold_ascii replace_absent collapse_ws_squeeze
      squeeze_squeezed)

lemma collapse_ws_tidy: "tidy s \<Longrightarrow> collapse_ws s = s"
  by (simp add: tidy_def collapse_ws_squeeze squeeze_squeezed)

lemma tidy_normalize_text: "tidy (normalize_text nfkd s)"
proof (cases "s = []")
  case True
  then show ?thesis by (simp add: normalize_text_def tidy_def py_strip_def strip_with_def)
next
  case False
  let ?t = "py_replace_c (CHR 0x00) CHR '' '' (ascii_fold nfkd s)"
  have out: "normalize_text nfkd s = py_strip (squeeze ?t)"
    using False by (simp add: normalize_text_def collapse_ws_squeeze)
  have a: "\<forall>c\<in>set ?t. is_ascii_c c"
  proof
    fix c assume "c \<in> set ?t"
    then have "c = CHR '' '' \<or> c \<in> set (ascii_fold nfkd s)"
      by (auto simp add: py_replace_c_def split: if_splits)
    then show "is_ascii_c c"
      using ascii_fold_is_ascii [of nfkd s] space_is_ascii by (auto simp add: list_all_iff)
  qed
  have n: "CHR 0x00 \<notin> set ?t" by (auto simp add: py_replace_c_def)
  have sub: "set (py_strip (squeeze ?t)) \<subseteq> insert CHR '' '' (set ?t)"
    using set_strip_with [of is_space_c "squeeze ?t"] set_squeeze [of ?t]
    unfolding py_strip_def by (rule subset_trans)
  have "\<forall>c\<in>set (py_strip (squeeze ?t)). is_ascii_c c"
  proof
    fix c assume "c \<in> set (py_strip (squeeze ?t))"
    then have "c = CHR '' '' \<or> c \<in> set ?t" using sub by blast
    then show "is_ascii_c c" using a space_is_ascii by blast
  qed
  then have "list_all is_ascii_c (py_strip (squeeze ?t))" by (simp only: list_all_iff)
  moreover have "CHR 0x00 \<notin> set (py_strip (squeeze ?t))"
  proof
    assume "CHR 0x00 \<in> set (py_strip (squeeze ?t))"
    then have "CHR 0x00 = CHR '' '' \<or> CHR 0x00 \<in> set ?t" using sub by blast
    then show False using n by simp
  qed
  moreover have "squeezed (py_strip (squeeze ?t))"
    by (simp add: py_strip_def squeezed_strip squeezed_squeeze)
  moreover have "py_strip (py_strip (squeeze ?t)) = py_strip (squeeze ?t)"
    by (simp add: py_strip_def strip_with_idem)
  ultimately show ?thesis by (simp add: out tidy_def)
qed

text \<open>
  Claim C10. \<open>normalize_text\<close> is idempotent: its result is ASCII, has no NUL, holds white
  space as single spaces only and none at its ends, and such a string is returned as it is.
  This holds whatever the decomposition table of the Unicode database is.
\<close>

theorem normalize_text_idempotent:
  "normalize_text nfkd (normalize_text nfkd s) = normalize_text nfkd s"
proof -
  have "tidy (normalize_text nfkd s)" by (rule tidy_normalize_text)
  then show ?thesis by (rule normalize_text_tidy)
qed

section \<open>A loop that does not leave\<close>

text \<open>
  The first substitution of \<open>_normalize_title_terms\<close> matches \<open>V/D\<close> together with the
  white space after it and puts \<open>V/D of\<close> in its place. When no \<open>OF\<close> follows, the space
  is lost and the \<open>of\<close> is glued to the next word; the next run of the substitution finds
  \<open>V/D\<close> and a space again and adds one more \<open>of\<close>. A pass of the cleaning loop runs the
  substitution twice and changes nothing else, so on such a name every pass differs from the
  one before. The lemmas follow one pass over a name of the family, pattern by pattern.
\<close>

lemma ofs_0 [simp]: "ofs 0 = []" by (simp add: ofs_def)
lemma ofs_Suc [simp]: "ofs (Suc k) = CHR ''o'' # CHR ''f'' # ofs k" by (simp add: ofs_def)

lemmas rx_build = cat_def alts_def chr_def lit_def one_of_def star_def plus_def opt_def ws_def dot_def
lemmas char_bits = is_word_c_bits is_upper_c_bits is_lower_c_bits is_digit_c_bits is_space_c_bits
  upper_c_bits lower_c_bits is_alpha_c_def is_alnum_c_def
lemma word_after_Cons: "word_after (p, c # cs) = is_word_c c"
  by (simp add: word_after_def)

lemma word_after_Nil: "word_after (p, []) = False"
  by (simp add: word_after_def)

lemmas run_rx = match_here_def word_before_def word_after_Cons word_after_Nil rx_build char_bits

lemma word_after_ofs [simp]: "word_after (p, ofs k @ CHR ''M'' # rest)"
  by (cases k) (simp_all add: word_after_def char_bits)


lemma sub_from_ofs:
  assumes o: "\<And>rest. match_here r (Some CHR ''f'', CHR ''o'' # CHR ''f'' # rest) = None"
    and f: "\<And>rest. match_here r (Some CHR ''o'', CHR ''f'' # rest) = None"
  shows "sub_from r rep (Some CHR ''f'') (ofs k @ t) = ofs k @ sub_from r rep (Some CHR ''f'') t"
  by (induction k) (simp_all add: o f)

lemma inert_prov: "sub_from rx_prov rep None (vd_state k) = vd_state k"
proof -
  have o: "\<And>rest. match_here rx_prov (Some CHR ''f'', CHR ''o'' # CHR ''f'' # rest) = None"
    by (simp add: rx_prov_def run_rx)
  have f: "\<And>rest. match_here rx_prov (Some CHR ''o'', CHR ''f'' # rest) = None"
    by (simp add: rx_prov_def run_rx)
  have t: "sub_from rx_prov rep (Some CHR ''f'') ''MAIN ENGINE'' = ''MAIN ENGINE''"
    by (simp add: rx_prov_def run_rx)
  have h: "\<And>rest. sub_from rx_prov rep None (''V/D of'' @ rest)
             = ''V/D of'' @ sub_from rx_prov rep (Some CHR ''f'') rest"
    by (simp add: rx_prov_def run_rx)
  show ?thesis
    unfolding vd_state_def h sub_from_ofs [of rx_prov, OF o f] t ..
qed

lemma inert_ref: "sub_from rx_ref rep None (vd_state k) = vd_state k"
proof -
  have o: "\<And>rest. match_here rx_ref (Some CHR ''f'', CHR ''o'' # CHR ''f'' # rest) = None"
    by (simp add: rx_ref_def run_rx)
  have f: "\<And>rest. match_here rx_ref (Some CHR ''o'', CHR ''f'' # rest) = None"
    by (simp add: rx_ref_def run_rx)
  have t: "sub_from rx_ref rep (Some CHR ''f'') ''MAIN ENGINE'' = ''MAIN ENGINE''"
    by (simp add: rx_ref_def run_rx)
  have h: "\<And>rest. sub_from rx_ref rep None (''V/D of'' @ rest)
             = ''V/D of'' @ sub_from rx_ref rep (Some CHR ''f'') rest"
    by (simp add: rx_ref_def run_rx)
  show ?thesis
    unfolding vd_state_def h sub_from_ofs [of rx_ref, OF o f] t ..
qed

lemma inert_aircon: "sub_from rx_aircon rep None (vd_state k) = vd_state k"
proof -
  have o: "\<And>rest. match_here rx_aircon (Some CHR ''f'', CHR ''o'' # CHR ''f'' # rest) = None"
    by (simp add: rx_aircon_def run_rx)
  have f: "\<And>rest. match_here rx_aircon (Some CHR ''o'', CHR ''f'' # rest) = None"
    by (simp add: rx_aircon_def run_rx)
  have t: "sub_from rx_aircon rep (Some CHR ''f'') ''MAIN ENGINE'' = ''MAIN ENGINE''"
    by (simp add: rx_aircon_def run_rx)
  have h: "\<And>rest. sub_from rx_aircon rep None (''V/D of'' @ rest)
             = ''V/D of'' @ sub_from rx_aircon rep (Some CHR ''f'') rest"
    by (simp add: rx_aircon_def run_rx)
  show ?thesis
    unfolding vd_state_def h sub_from_ofs [of rx_aircon, OF o f] t ..
qed

lemma inert_arrt_quote: "sub_from rx_arrt_quote rep None (vd_state k) = vd_state k"
proof -
  have o: "\<And>rest. match_here rx_arrt_quote (Some CHR ''f'', CHR ''o'' # CHR ''f'' # rest) = None"
    by (simp add: rx_arrt_quote_def run_rx)
  have f: "\<And>rest. match_here rx_arrt_quote (Some CHR ''o'', CHR ''f'' # rest) = None"
    by (simp add: rx_arrt_quote_def run_rx)
  have t: "sub_from rx_arrt_quote rep (Some CHR ''f'') ''MAIN ENGINE'' = ''MAIN ENGINE''"
    by (simp add: rx_arrt_quote_def run_rx)
  have h: "\<And>rest. sub_from rx_arrt_quote rep None (''V/D of'' @ rest)
             = ''V/D of'' @ sub_from rx_arrt_quote rep (Some CHR ''f'') rest"
    by (simp add: rx_arrt_quote_def run_rx)
  show ?thesis
    unfolding vd_state_def h sub_from_ofs [of rx_arrt_quote, OF o f] t ..
qed

lemma inert_arrt: "sub_from rx_arrt rep None (vd_state k) = vd_state k"
proof -
  have o: "\<And>rest. match_here rx_arrt (Some CHR ''f'', CHR ''o'' # CHR ''f'' # rest) = None"
    by (simp add: rx_arrt_def run_rx)
  have f: "\<And>rest. match_here rx_arrt (Some CHR ''o'', CHR ''f'' # rest) = None"
    by (simp add: rx_arrt_def run_rx)
  have t: "sub_from rx_arrt rep (Some CHR ''f'') ''MAIN ENGINE'' = ''MAIN ENGINE''"
    by (simp add: rx_arrt_def run_rx)
  have h: "\<And>rest. sub_from rx_arrt rep None (''V/D of'' @ rest)
             = ''V/D of'' @ sub_from rx_arrt rep (Some CHR ''f'') rest"
    by (simp add: rx_arrt_def run_rx)
  show ?thesis
    unfolding vd_state_def h sub_from_ofs [of rx_arrt, OF o f] t ..
qed

lemma inert_arrangment: "sub_from rx_arrangment rep None (vd_state k) = vd_state k"
proof -
  have o: "\<And>rest. match_here rx_arrangment (Some CHR ''f'', CHR ''o'' # CHR ''f'' # rest) = None"
    by (simp add: rx_arrangment_def run_rx)
  have f: "\<And>rest. match_here rx_arrangment (Some CHR ''o'', CHR ''f'' # rest) = None"
    by (simp add: rx_arrangment_def run_rx)
  have t: "sub_from rx_arrangment rep (Some CHR ''f'') ''MAIN ENGINE'' = ''MAIN ENGINE''"
    by (simp add: rx_arrangment_def run_rx)
  have h: "\<And>rest. sub_from rx_arrangment rep None (''V/D of'' @ rest)
             = ''V/D of'' @ sub_from rx_arrangment rep (Some CHR ''f'') rest"
    by (simp add: rx_arrangment_def run_rx)
  show ?thesis
    unfolding vd_state_def h sub_from_ofs [of rx_arrangment, OF o f] t ..
qed

lemma inert_er_dash: "sub_from rx_er_dash rep None (vd_state k) = vd_state k"
proof -
  have o: "\<And>rest. match_here rx_er_dash (Some CHR ''f'', CHR ''o'' # CHR ''f'' # rest) = None"
    by (simp add: rx_er_dash_def run_rx)
  have f: "\<And>rest. match_here rx_er_dash (Some CHR ''o'', CHR ''f'' # rest) = None"
    by (simp add: rx_er_dash_def run_rx)
  have t: "sub_from rx_er_dash rep (Some CHR ''f'') ''MAIN ENGINE'' = ''MAIN ENGINE''"
    by (simp add: rx_er_dash_def run_rx)
  have h: "\<And>rest. sub_from rx_er_dash rep None (''V/D of'' @ rest)
             = ''V/D of'' @ sub_from rx_er_dash rep (Some CHR ''f'') rest"
    by (simp add: rx_er_dash_def run_rx)
  show ?thesis
    unfolding vd_state_def h sub_from_ofs [of rx_er_dash, OF o f] t ..
qed

lemma inert_er_space: "sub_from rx_er_space rep None (vd_state k) = vd_state k"
proof -
  have o: "\<And>rest. match_here rx_er_space (Some CHR ''f'', CHR ''o'' # CHR ''f'' # rest) = None"
    by (simp add: rx_er_space_def run_rx)
  have f: "\<And>rest. match_here rx_er_space (Some CHR ''o'', CHR ''f'' # rest) = None"
    by (simp add: rx_er_space_def run_rx)
  have t: "sub_from rx_er_space rep (Some CHR ''f'') ''MAIN ENGINE'' = ''MAIN ENGINE''"
    by (simp add: rx_er_space_def run_rx)
  have h: "\<And>rest. sub_from rx_er_space rep None (''V/D of'' @ rest)
             = ''V/D of'' @ sub_from rx_er_space rep (Some CHR ''f'') rest"
    by (simp add: rx_er_space_def run_rx)
  show ?thesis
    unfolding vd_state_def h sub_from_ofs [of rx_er_space, OF o f] t ..
qed

lemma inert_er_slash: "sub_from rx_er_slash rep None (vd_state k) = vd_state k"
proof -
  have o: "\<And>rest. match_here rx_er_slash (Some CHR ''f'', CHR ''o'' # CHR ''f'' # rest) = None"
    by (simp add: rx_er_slash_def run_rx)
  have f: "\<And>rest. match_here rx_er_slash (Some CHR ''o'', CHR ''f'' # rest) = None"
    by (simp add: rx_er_slash_def run_rx)
  have t: "sub_from rx_er_slash rep (Some CHR ''f'') ''MAIN ENGINE'' = ''MAIN ENGINE''"
    by (simp add: rx_er_slash_def run_rx)
  have h: "\<And>rest. sub_from rx_er_slash rep None (''V/D of'' @ rest)
             = ''V/D of'' @ sub_from rx_er_slash rep (Some CHR ''f'') rest"
    by (simp add: rx_er_slash_def run_rx)
  show ?thesis
    unfolding vd_state_def h sub_from_ofs [of rx_er_slash, OF o f] t ..
qed

lemma inert_workshop: "sub_from rx_workshop rep None (vd_state k) = vd_state k"
proof -
  have o: "\<And>rest. match_here rx_workshop (Some CHR ''f'', CHR ''o'' # CHR ''f'' # rest) = None"
    by (simp add: rx_workshop_def run_rx)
  have f: "\<And>rest. match_here rx_workshop (Some CHR ''o'', CHR ''f'' # rest) = None"
    by (simp add: rx_workshop_def run_rx)
  have t: "sub_from rx_workshop rep (Some CHR ''f'') ''MAIN ENGINE'' = ''MAIN ENGINE''"
    by (simp add: rx_workshop_def run_rx)
  have h: "\<And>rest. sub_from rx_workshop rep None (''V/D of'' @ rest)
             = ''V/D of'' @ sub_from rx_workshop rep (Some CHR ''f'') rest"
    by (simp add: rx_workshop_def run_rx)
  show ?thesis
    unfolding vd_state_def h sub_from_ofs [of rx_workshop, OF o f] t ..
qed

lemma inert_amp: "sub_from rx_amp rep None (vd_state k) = vd_state k"
proof -
  have o: "\<And>rest. match_here rx_amp (Some CHR ''f'', CHR ''o'' # CHR ''f'' # rest) = None"
    by (simp add: rx_amp_def run_rx)
  have f: "\<And>rest. match_here rx_amp (Some CHR ''o'', CHR ''f'' # rest) = None"
    by (simp add: rx_amp_def run_rx)
  have t: "sub_from rx_amp rep (Some CHR ''f'') ''MAIN ENGINE'' = ''MAIN ENGINE''"
    by (simp add: rx_amp_def run_rx)
  have h: "\<And>rest. sub_from rx_amp rep None (''V/D of'' @ rest)
             = ''V/D of'' @ sub_from rx_amp rep (Some CHR ''f'') rest"
    by (simp add: rx_amp_def run_rx)
  show ?thesis
    unfolding vd_state_def h sub_from_ofs [of rx_amp, OF o f] t ..
qed

lemma inert_stamp_by: "sub_from rx_stamp_by rep None (vd_state k) = vd_state k"
proof -
  have o: "\<And>rest. match_here rx_stamp_by (Some CHR ''f'', CHR ''o'' # CHR ''f'' # rest) = None"
    by (simp add: rx_stamp_by_def run_rx)
  have f: "\<And>rest. match_here rx_stamp_by (Some CHR ''o'', CHR ''f'' # rest) = None"
    by (simp add: rx_stamp_by_def run_rx)
  have t: "sub_from rx_stamp_by rep (Some CHR ''f'') ''MAIN ENGINE'' = ''MAIN ENGINE''"
    by (simp add: rx_stamp_by_def run_rx)
  have h: "\<And>rest. sub_from rx_stamp_by rep None (''V/D of'' @ rest)
             = ''V/D of'' @ sub_from rx_stamp_by rep (Some CHR ''f'') rest"
    by (simp add: rx_stamp_by_def run_rx)
  show ?thesis
    unfolding vd_state_def h sub_from_ofs [of rx_stamp_by, OF o f] t ..
qed

lemma inert_stamp_rev: "sub_from rx_stamp_rev rep None (vd_state k) = vd_state k"
proof -
  have o: "\<And>rest. match_here rx_stamp_rev (Some CHR ''f'', CHR ''o'' # CHR ''f'' # rest) = None"
    by (simp add: rx_stamp_rev_def run_rx)
  have f: "\<And>rest. match_here rx_stamp_rev (Some CHR ''o'', CHR ''f'' # rest) = None"
    by (simp add: rx_stamp_rev_def run_rx)
  have t: "sub_from rx_stamp_rev rep (Some CHR ''f'') ''MAIN ENGINE'' = ''MAIN ENGINE''"
    by (simp add: rx_stamp_rev_def run_rx)
  have h: "\<And>rest. sub_from rx_stamp_rev rep None (''V/D of'' @ rest)
             = ''V/D of'' @ sub_from rx_stamp_rev rep (Some CHR ''f'') rest"
    by (simp add: rx_stamp_rev_def run_rx)
  show ?thesis
    unfolding vd_state_def h sub_from_ofs [of rx_stamp_rev, OF o f] t ..
qed

lemma inert_stamp_issue: "sub_from rx_stamp_issue rep None (vd_state k) = vd_state k"
proof -
  have o: "\<And>rest. match_here rx_stamp_issue (Some CHR ''f'', CHR ''o'' # CHR ''f'' # rest) = None"
    by (simp add: rx_stamp_issue_def run_rx)
  have f: "\<And>rest. match_here rx_stamp_issue (Some CHR ''o'', CHR ''f'' # rest) = None"
    by (simp add: rx_stamp_issue_def run_rx)
  have t: "sub_from rx_stamp_issue rep (Some CHR ''f'') ''MAIN ENGINE'' = ''MAIN ENGINE''"
    by (simp add: rx_stamp_issue_def run_rx)
  have h: "\<And>rest. sub_from rx_stamp_issue rep None (''V/D of'' @ rest)
             = ''V/D of'' @ sub_from rx_stamp_issue rep (Some CHR ''f'') rest"
    by (simp add: rx_stamp_issue_def run_rx)
  show ?thesis
    unfolding vd_state_def h sub_from_ofs [of rx_stamp_issue, OF o f] t ..
qed

lemma inert_stamp_regex: "sub_from STAMP_REGEX rep None (vd_state k) = vd_state k"
proof -
  have o: "\<And>rest. match_here STAMP_REGEX (Some CHR ''f'', CHR ''o'' # CHR ''f'' # rest) = None"
    by (simp add: STAMP_REGEX_def run_rx)
  have f: "\<And>rest. match_here STAMP_REGEX (Some CHR ''o'', CHR ''f'' # rest) = None"
    by (simp add: STAMP_REGEX_def run_rx)
  have t: "sub_from STAMP_REGEX rep (Some CHR ''f'') ''MAIN ENGINE'' = ''MAIN ENGINE''"
    by (simp add: STAMP_REGEX_def run_rx)
  have h: "\<And>rest. sub_from STAMP_REGEX rep None (''V/D of'' @ rest)
             = ''V/D of'' @ sub_from STAMP_REGEX rep (Some CHR ''f'') rest"
    by (simp add: STAMP_REGEX_def run_rx)
  show ?thesis
    unfolding vd_state_def h sub_from_ofs [of STAMP_REGEX, OF o f] t ..
qed

lemma inert_edges: "sub_from rx_edges rep None (vd_state k) = vd_state k"
proof -
  have o: "\<And>rest. match_here rx_edges (Some CHR ''f'', CHR ''o'' # CHR ''f'' # rest) = None"
    by (simp add: rx_edges_def run_rx title_prefixes_def Let_def)
  have f: "\<And>rest. match_here rx_edges (Some CHR ''o'', CHR ''f'' # rest) = None"
    by (simp add: rx_edges_def run_rx title_prefixes_def Let_def)
  have t: "sub_from rx_edges rep (Some CHR ''f'') ''MAIN ENGINE'' = ''MAIN ENGINE''"
    by (simp add: rx_edges_def run_rx title_prefixes_def Let_def)
  have h: "\<And>rest. sub_from rx_edges rep None (''V/D of'' @ rest)
             = ''V/D of'' @ sub_from rx_edges rep (Some CHR ''f'') rest"
    by (simp add: rx_edges_def run_rx title_prefixes_def Let_def)
  show ?thesis
    unfolding vd_state_def h sub_from_ofs [of rx_edges, OF o f] t ..
qed

lemma inert_prefix: "sub_from rx_prefix rep None (vd_state k) = vd_state k"
proof -
  have o: "\<And>rest. match_here rx_prefix (Some CHR ''f'', CHR ''o'' # CHR ''f'' # rest) = None"
    by (simp add: rx_prefix_def run_rx title_prefixes_def Let_def)
  have f: "\<And>rest. match_here rx_prefix (Some CHR ''o'', CHR ''f'' # rest) = None"
    by (simp add: rx_prefix_def run_rx title_prefixes_def Let_def)
  have t: "sub_from rx_prefix rep (Some CHR ''f'') ''MAIN ENGINE'' = ''MAIN ENGINE''"
    by (simp add: rx_prefix_def run_rx title_prefixes_def Let_def)
  have h: "\<And>rest. sub_from rx_prefix rep None (''V/D of'' @ rest)
             = ''V/D of'' @ sub_from rx_prefix rep (Some CHR ''f'') rest"
    by (simp add: rx_prefix_def run_rx title_prefixes_def Let_def)
  show ?thesis
    unfolding vd_state_def h sub_from_ofs [of rx_prefix, OF o f] t ..
qed

lemma inert_vd_of: "sub_from rx_vd_of rep None (vd_state k) = vd_state k"
proof -
  have o: "\<And>rest. match_here rx_vd_of (Some CHR ''f'', CHR ''o'' # CHR ''f'' # rest) = None"
    by (simp add: rx_vd_of_def run_rx)
  have f: "\<And>rest. match_here rx_vd_of (Some CHR ''o'', CHR ''f'' # rest) = None"
    by (simp add: rx_vd_of_def run_rx)
  have t: "sub_from rx_vd_of rep (Some CHR ''f'') ''MAIN ENGINE'' = ''MAIN ENGINE''"
    by (simp add: rx_vd_of_def run_rx)
  have h: "sub_from rx_vd_of rep None (''V/D of'' @ ofs k @ ''MAIN ENGINE'')
             = ''V/D of'' @ sub_from rx_vd_of rep (Some CHR ''f'') (ofs k @ ''MAIN ENGINE'')"
    by (simp add: rx_vd_of_def run_rx)
  show ?thesis
    unfolding vd_state_def h sub_from_ofs [of rx_vd_of, OF o f] t ..
qed

lemma grow_vd: "sub_from rx_vd ''V/D of'' None (vd_state k) = vd_state (Suc k)"
proof -
  have o: "\<And>rest. match_here rx_vd (Some CHR ''f'', CHR ''o'' # CHR ''f'' # rest) = None"
    by (simp add: rx_vd_def run_rx)
  have f: "\<And>rest. match_here rx_vd (Some CHR ''o'', CHR ''f'' # rest) = None"
    by (simp add: rx_vd_def run_rx)
  have t: "sub_from rx_vd ''V/D of'' (Some CHR ''f'') ''MAIN ENGINE'' = ''MAIN ENGINE''"
    by (simp add: rx_vd_def run_rx)
  have m: "match_here rx_vd (None, ''V/D of'' @ ofs k @ ''MAIN ENGINE'')
             = Some (Some CHR '' '', ''of'' @ ofs k @ ''MAIN ENGINE'')"
    by (simp add: rx_vd_def run_rx)
  have s: "\<And>rest. sub_from rx_vd ''V/D of'' (Some CHR '' '') (''of'' @ rest)
             = ''of'' @ sub_from rx_vd ''V/D of'' (Some CHR ''f'') rest"
    by (simp add: rx_vd_def run_rx)
  have "sub_from rx_vd ''V/D of'' None (''V/D of'' @ ofs k @ ''MAIN ENGINE'')
          = ''V/D of'' @ sub_from rx_vd ''V/D of'' (Some CHR '' '') (''of'' @ ofs k @ ''MAIN ENGINE'')"
    using m by simp
  then show ?thesis
    unfolding vd_state_def s sub_from_ofs [of rx_vd, OF o f] t by simp
qed

lemma length_ofs [simp]: "length (ofs k) = 2 * k"
  by (induction k) simp_all

lemma vd_state_inj: "vd_state a = vd_state b \<Longrightarrow> a = b"
proof -
  assume "vd_state a = vd_state b"
  then have "length (vd_state a) = length (vd_state b)" by simp
  then show ?thesis by (simp add: vd_state_def)
qed

lemma vd_state_not_Nil [simp]: "vd_state k \<noteq> []"
  by (simp add: vd_state_def)

lemma ofs_ascii: "list_all is_ascii_c (ofs k)"
  by (induction k) (simp_all add: is_ascii_c_def)

lemma ofs_no_nul: "CHR 0x00 \<notin> set (ofs k)"
  by (induction k) simp_all

lemma squeezed_ofs: "\<not> is_space_c c \<Longrightarrow> squeezed (c # ofs k @ ''MAIN ENGINE'')"
proof (induction k arbitrary: c)
  case 0
  then show ?case by (simp add: char_bits)
next
  case (Suc k)
  have "squeezed (CHR ''f'' # ofs k @ ''MAIN ENGINE'')" by (rule Suc.IH) (simp add: char_bits)
  then show ?case using Suc.prems by (simp add: char_bits)
qed

lemma tidy_vd_state: "tidy (vd_state k)"
proof -
  have a: "list_all is_ascii_c (vd_state k)"
    by (simp add: vd_state_def ofs_ascii is_ascii_c_def)
  have n: "CHR 0x00 \<notin> set (vd_state k)"
    by (simp add: vd_state_def ofs_no_nul)
  have "squeezed (CHR ''f'' # ofs k @ ''MAIN ENGINE'')" by (rule squeezed_ofs) (simp add: char_bits)
  then have s: "squeezed (vd_state k)" by (simp add: vd_state_def char_bits)
  have p: "py_strip (vd_state k) = vd_state k"
    by (simp add: vd_state_def py_strip_def strip_with_def char_bits)
  show ?thesis by (simp add: tidy_def a n s p)
qed

lemma normalize_title_terms_vd_state:
  "normalize_title_terms nfkd (vd_state k) = vd_state (Suc k)"
  by (simp add: normalize_title_terms_def Let_def re_sub_def normalize_text_tidy tidy_vd_state
      grow_vd inert_vd_of inert_prov inert_ref inert_aircon inert_arrt_quote inert_arrt
      inert_arrangment inert_er_dash inert_er_space inert_er_slash inert_workshop inert_amp
      collapse_ws_tidy)

lemma strip_stamp_vd_state: "strip_stamp_fragments nfkd (vd_state k) = vd_state k"
  by (simp add: strip_stamp_fragments_def Let_def re_sub_def normalize_text_tidy tidy_vd_state
      inert_stamp_by inert_stamp_rev inert_stamp_issue inert_stamp_regex collapse_ws_tidy)

lemma slice_vd_state: "slice_from_first_anchor nfkd (vd_state k) = vd_state (Suc k)"
proof -
  have "startswith (py_upper (vd_state (Suc k))) ''V/D OF''"
    by (simp add: vd_state_def startswith_def py_upper_def char_bits)
  then show ?thesis
    by (simp add: slice_from_first_anchor_def Let_def normalize_title_terms_vd_state)
qed

lemma split_ws_ofs: "split_ws w (ofs k @ rest) = split_ws (rev (ofs k) @ w) rest"
  by (induction k arbitrary: w) (simp_all add: char_bits)

lemma py_split_vd_state:
  "py_split (vd_state k) = [''V/D'', ''of'' @ ofs k @ ''MAIN'', ''ENGINE'']"
  by (simp add: py_split_def vd_state_def split_ws_ofs char_bits)

lemma filter_alpha_ofs: "filter is_alpha_c (ofs k) = ofs k"
  by (induction k) (simp_all add: char_bits)

lemma alpha_ratio_token: "alpha_ratio (''of'' @ ofs k @ ''MAIN'') = 1"
  by (simp add: alpha_ratio_def filter_alpha_ofs char_bits)

lemma keep_token_ofs:
  "keep_token (''of'' @ ofs k @ ''MAIN'') = Some (''of'' @ ofs k @ ''MAIN'')"
proof -
  let ?t = "''of'' @ ofs k @ ''MAIN''"
  have s: "py_strip ?t = ?t"
    by (simp add: py_strip_def strip_with_def char_bits)
  have p: "\<not> re_fullmatch rx_punct2 ?t"
    by (simp add: re_fullmatch_def rx_punct2_def char_bits)
  have i: "\<not> py_isupper ?t"
    by (simp add: py_isupper_def char_bits)
  have v: "has_vowel ?t"
    by (simp add: has_vowel_def py_upper_def char_bits)
  show ?thesis
    using s p i v alpha_ratio_token [of k]
    by (simp add: keep_token_def Let_def py_upper_def char_bits ALLCAPS_JUNK_WHITELIST_def)
qed

lemma keep_token_ends: "keep_token ''V/D'' = Some ''V/D''" "keep_token ''ENGINE'' = Some ''ENGINE''"
  by code_simp+

lemma drop_garbage_vd_state: "drop_garbage_tokens (vd_state k) = vd_state k"
proof -
  have "py_join '' '' [''V/D'', ''of'' @ ofs k @ ''MAIN'', ''ENGINE''] = vd_state k"
    by (simp add: py_join_def vd_state_def)
  then show ?thesis
    by (simp add: drop_garbage_tokens_def py_split_vd_state List.map_filter_simps keep_token_ofs
        keep_token_ends collapse_ws_tidy tidy_vd_state del: append.simps)
qed

lemma py_strip_vd_state: "py_strip (vd_state k) = vd_state k"
  using tidy_vd_state [of k] by (simp add: tidy_def)

lemma clean_pass_vd_state: "clean_pass nfkd (vd_state k) = vd_state (Suc (Suc k))"
  by (simp add: clean_pass_def Let_def re_sub_def inert_edges inert_prefix py_strip_vd_state
      slice_vd_state strip_stamp_vd_state drop_garbage_vd_state normalize_title_terms_vd_state)

lemma clean_loop_Some_not_vd_state:
  assumes "clean_loop nfkd s = Some y"
  shows "\<forall>k. s \<noteq> vd_state k"
proof (rule clean_loop.raw_induct [where P = "\<lambda>n p r. \<forall>k. p \<noteq> vd_state k" and nfkd = nfkd
      and prev = s and y = y])
  show "clean_loop nfkd s = Some y" by fact
next
  fix loop :: "(char \<Rightarrow> string) \<Rightarrow> string \<Rightarrow> string option" and n p r
  assume IH: "\<And>a b c. loop a b = Some c \<Longrightarrow> \<forall>k. b \<noteq> vd_state k"
    and step: "(if clean_pass n p = p then Some p else loop n (clean_pass n p)) = Some r"
  show "\<forall>k. p \<noteq> vd_state k"
  proof (intro allI notI)
    fix k
    assume eq: "p = vd_state k"
    have "vd_state (Suc (Suc k)) \<noteq> vd_state k"
      using vd_state_inj [of "Suc (Suc k)" k] by auto
    then have "loop n (vd_state (Suc (Suc k))) = Some r"
      using step by (simp add: eq clean_pass_vd_state)
    then show False using IH by blast
  qed
qed

lemma clean_loop_vd_state: "clean_loop nfkd (vd_state k) = None"
proof (cases "clean_loop nfkd (vd_state k)")
  case (Some y)
  then show ?thesis using clean_loop_Some_not_vd_state by blast
qed simp

lemma canonical_vd:
  "normalize_title_terms nfkd ''V/D MAIN ENGINE'' = ''V/D ofMAIN ENGINE''"
  "normalize_title_terms nfkd ''V-D MAIN ENGINE'' = ''V/D ofMAIN ENGINE''"
  "normalize_title_terms nfkd ''V D MAIN ENGINE'' = ''V/D ofMAIN ENGINE''"
  by code_simp+

lemma vd_state_0: "vd_state 0 = ''V/D ofMAIN ENGINE''"
  by (simp add: vd_state_def)

text \<open>
  Claim C2. \<open>clean_manual_name\<close> does not return on \<open>V/D MAIN ENGINE\<close>: the loop starts
  from \<open>V/D ofMAIN ENGINE\<close>, and each pass adds \<open>ofof\<close>.
\<close>

theorem clean_manual_name_never_returns:
  "clean_manual_name nfkd ''V/D MAIN ENGINE'' = None"
  using clean_loop_vd_state [of nfkd 0] by (simp add: clean_manual_name_def canonical_vd vd_state_0)

text \<open>
  Claim C3. The canonical form of \<open>V-D MAIN ENGINE\<close> starts with \<open>V/D of\<close>, and the
  cleaner has no result for it. For the example of the specification, where \<open>OF\<close> follows
  the prefix, the result starts with \<open>V/D of\<close>.
\<close>

theorem vd_prefix_never_returns:
  "startswith (normalize_title_terms nfkd ''V-D MAIN ENGINE'') ''V/D of''
   \<and> clean_manual_name nfkd ''V-D MAIN ENGINE'' = None
   \<and> clean_manual_name nfkd ''V-D OF MAIN ENGINE COOLER'' = Some ''V/D of MAIN Engine Cooler''"
proof -
  have 1: "startswith ''V/D ofMAIN ENGINE'' ''V/D of''" by code_simp
  have 2: "clean_manual_name nfkd ''V-D MAIN ENGINE'' = None"
    using clean_loop_vd_state [of nfkd 0] by (simp add: clean_manual_name_def canonical_vd vd_state_0)
  have 3: "clean_manual_name nfkd ''V-D OF MAIN ENGINE COOLER'' = Some ''V/D of MAIN Engine Cooler''"
    by code_simp
  show ?thesis using 1 2 3 by (simp add: canonical_vd)
qed

text \<open>
  Claim C9. \<open>identify_manual_name\<close> does not return for the file \<open>V-D MAIN ENGINE.pdf\<close>
  with no text, no folder and no metadata: the hyphen of the file name becomes a space, no
  strategy before the fallback has a name, and the fallback cleans \<open>V D MAIN ENGINE\<close>.
\<close>

theorem identify_manual_name_never_returns:
  "identify_manual_name nfkd (Some []) (Some ''V-D MAIN ENGINE.pdf'') [] None = None"
proof -
  have stem: "(if or_empty (Some ''V-D MAIN ENGINE.pdf'') \<noteq> []
               then path_stem (or_empty (Some ''V-D MAIN ENGINE.pdf'')) else []) = ''V-D MAIN ENGINE''"
    by code_simp
  have "\<not> re_match rx_drawing_no ''V-D MAIN ENGINE''" by code_simp
  then have s1: "drawing_filename_rule nfkd ''V-D MAIN ENGINE'' = Some []"
    by (simp add: drawing_filename_rule_def)
  have fc: "fn_clean_of ''V-D MAIN ENGINE'' = ''V D MAIN ENGINE''" by code_simp
  have "\<not> re_found rx_vd_filename ''V D MAIN ENGINE''" by code_simp
  then have s2: "vendor_filename_rule nfkd ''V D MAIN ENGINE'' = Some []"
    by (simp add: vendor_filename_rule_def)
  have s7: "metadata_rule nfkd None = Some []" by (simp add: metadata_rule_def)
  have combo: "strip_with (\<lambda>c. c \<in> set '' -'') ([] @ '' - '' @ ''V D MAIN ENGINE'') = ''V D MAIN ENGINE''"
    by code_simp
  have "clean_manual_name nfkd ''V D MAIN ENGINE'' = None"
    using clean_loop_vd_state [of nfkd 0] by (simp add: clean_manual_name_def canonical_vd vd_state_0)
  then have s8: "folder_fallback nfkd [] ''V D MAIN ENGINE'' = None"
    unfolding folder_fallback_def combo .
  show ?thesis
    by (simp add: identify_manual_name_def Let_def stem s1 fc s2 no_text_strategies no_text_labels s7 s8
        or_else_def)
qed

section \<open>Further properties\<close>

text \<open>
  When the loop of \<open>clean_manual_name\<close> leaves, the name it leaves with is a fixed point
  of one pass: this is the idempotence the loop itself gives, before the casing step.
\<close>

theorem clean_loop_fixed_point:
  assumes "clean_loop nfkd s = Some r"
  shows "clean_pass nfkd r = r"
proof (rule clean_loop.raw_induct [where P = "\<lambda>n p r. clean_pass n r = r" and nfkd = nfkd
      and prev = s and y = r])
  show "clean_loop nfkd s = Some r" by fact
next
  fix loop :: "(char \<Rightarrow> string) \<Rightarrow> string \<Rightarrow> string option" and n p y
  assume IH: "\<And>a b c. loop a b = Some c \<Longrightarrow> clean_pass a c = c"
    and step: "(if clean_pass n p = p then Some p else loop n (clean_pass n p)) = Some y"
  show "clean_pass n y = y"
  proof (cases "clean_pass n p = p")
    case True
    then show ?thesis using step by simp
  next
    case False
    then have "loop n (clean_pass n p) = Some y" using step by simp
    then show ?thesis by (rule IH)
  qed
qed

theorem clean_loop_fixed_point_witness:
  "clean_loop no_fold ''a12 unit'' = Some ''a12 unit'' \<and> clean_pass no_fold ''a12 unit'' = ''a12 unit''"
proof -
  have p: "clean_pass no_fold ''a12 unit'' = ''a12 unit''" by code_simp
  have l: "clean_loop no_fold ''a12 unit'' = Some ''a12 unit''"
    by (subst clean_loop.simps) (simp add: p)
  show ?thesis using l clean_loop_fixed_point [OF l] by simp
qed

text \<open>\<open>classify_doc_type\<close> answers with one of its five labels, whatever it is given.\<close>

theorem classify_doc_type_labels:
  "classify_doc_type nfkd text filename folder_path \<in>
     set [''Machinery/System Manual'', ''Capacity Plan / Datasheet'', ''Certificate / Report'',
          ''Drawing'', ''Unknown'']"
  by (simp add: classify_doc_type_def classify_combined_def)

text \<open>
  With nothing to go on (no text, no file name, no folder, no metadata) the name is the
  empty string and the type is \<open>Unknown\<close>.
\<close>

theorem nothing_to_go_on:
  "identify_manual_name nfkd None None [] None = Some []
   \<and> classify_doc_type nfkd None None [] = ''Unknown''"
proof -
  have 1: "identify_manual_name nfkd None None [] None = Some []" by code_simp
  have 2: "classify_doc_type nfkd None None [] = ''Unknown''" by code_simp
  show ?thesis using 1 2 by simp
qed

text \<open>
  One pass of the loop on a name of the family adds two \<open>of\<close>, for every length of the
  name: the step behind the three theorems of the last section, without the names of the
  family.
\<close>

theorem pass_adds_two_of:
  "clean_pass nfkd (''V/D of'' @ concat (replicate k ''of'') @ ''MAIN ENGINE'')
     = ''V/D of'' @ concat (replicate (k + 2) ''of'') @ ''MAIN ENGINE''"
  using clean_pass_vd_state [of nfkd k] by (simp add: vd_state_def ofs_def)

text \<open>The canonical spellings of the specification's examples.\<close>

theorem canonical_spellings:
  "map (normalize_title_terms nfkd) [''ARR'T'', ''ARR T'', ''ARRANGMENT'', ''E-R'', ''E R'']
     = [''ARRANGEMENT'', ''ARRANGEMENT'', ''ARRANGEMENT'', ''E/R'', ''E/R'']"
  by code_simp

text \<open>
  All-capitals fragments of three or four letters are dropped by the token filter; the
  whitelisted \<open>ICCP\<close>, \<open>MGPS\<close> and \<open>V/D\<close> stay.
\<close>

theorem garbage_tokens_dropped:
  "drop_garbage_tokens ''OLT DOL ICCP MGPS V/D'' = ''ICCP MGPS V/D''"
  by code_simp

end
